theory Spec2Isabelle
  imports
    Complex_Main
    "HOL-Library.Word"
    "HOL-Library.Char_ord"
    "HOL-Library.List_Lexorder"
begin

unbundle bit_operations_syntax

section \<open>JavaScript values and buffers\<close>

text \<open>
  A Buffer is a list of bytes. A JavaScript value is what \<open>JSON.parse\<close> can return,
  together with \<open>undefined\<close> (reading an index or a property that is not there).
  Numbers are the rationals: every finite double is one, and \<open>-0 === 0\<close> holds;
  \<open>Infinity\<close>, which \<open>JSON.parse\<close> returns for a literal beyond the doubles, is left out.
  An object is the list of its entries; a property is read with \<open>map_of\<close>.
\<close>

type_synonym byte = "8 word"
type_synonym Buffer = "byte list"

datatype jsvalue =
    JUndefined
  | JNull
  | JBoolean bool
  | JNumber rat
  | JString string
  | JArray "jsvalue list"
  | JObject "(string \<times> jsvalue) list"

text \<open>\<open>parsed[i]\<close>: \<open>undefined\<close> beyond the end of an array and on a value with no such index.\<close>

definition element :: "jsvalue \<Rightarrow> nat \<Rightarrow> jsvalue" where
  "element v i = (case v of JArray items \<Rightarrow> (if i < length items then items ! i else JUndefined)
                | _ \<Rightarrow> JUndefined)"

text \<open>\<open>body.name\<close>: \<open>undefined\<close> when the object has no such property.\<close>

definition property :: "jsvalue \<Rightarrow> string \<Rightarrow> jsvalue" where
  "property v k = (case v of JObject entries \<Rightarrow> (case map_of entries k of Some x \<Rightarrow> x | None \<Rightarrow> JUndefined)
                   | _ \<Rightarrow> JUndefined)"

text \<open>The errors the module creates or lets through, each with what it carries.\<close>

datatype error =
    Error string                            \<comment> \<open>\<open>new Error(message)\<close>\<close>
  | SyntaxError                             \<comment> \<open>thrown by \<open>JSON.parse\<close>\<close>
  | VersionMismatch jsvalue                 \<comment> \<open>\<open>Error('version mismatch')\<close> with \<open>.version\<close>\<close>
  | Invalid string "string list option"     \<comment> \<open>\<open>Error('invalid ' + typeName)\<close> with \<open>.errors\<close>\<close>
  | AssertionError string                   \<comment> \<open>a failed \<open>assert(condition, message)\<close>\<close>
  | TypeError string                        \<comment> \<open>a method call on \<open>null\<close>\<close>

section \<open>Hexadecimal strings\<close>

text \<open>\<open>buffer.toString('hex')\<close>: two lowercase digits for each byte.\<close>

definition hexdigit :: "nat \<Rightarrow> char" where
  "hexdigit n = ''0123456789abcdef'' ! (n mod 16)"

definition toString_hex :: "Buffer \<Rightarrow> string" where
  "toString_hex b = concat (map (\<lambda>x. [hexdigit (unat x div 16), hexdigit (unat x mod 16)]) b)"

text \<open>
  \<open>Buffer.from(string, 'hex')\<close>: one byte for each pair of hexadecimal digits (either
  case), stopping at the first pair that is not one; a last single character is dropped.
\<close>

definition unhex :: "char \<Rightarrow> nat option" where
  "unhex c =
     (let n = of_char c :: nat in
      if 48 \<le> n \<and> n \<le> 57 then Some (n - 48)
      else if 97 \<le> n \<and> n \<le> 102 then Some (n - 87)
      else if 65 \<le> n \<and> n \<le> 70 then Some (n - 55)
      else None)"

fun Buffer_from_hex :: "string \<Rightarrow> Buffer" where
  "Buffer_from_hex (a # b # rest) =
     (case unhex a of
        None \<Rightarrow> []
      | Some h \<Rightarrow> (case unhex b of
                     None \<Rightarrow> []
                   | Some l \<Rightarrow> word_of_nat (16 * h + l) # Buffer_from_hex rest))"
| "Buffer_from_hex _ = []"

section \<open>The libraries the module requires\<close>

text \<open>
  The module calls sodium-universal, \<open>JSON\<close> and length-prefixed-stream; none of them is
  part of it. They are a parameter of every definition below:
  \<^item> the two constants of \<open>crypto_stream\<close>;
  \<^item> \<open>crypto_stream\<close> itself, as the byte of the key stream of a nonce and a key at a
    position (\<open>crypto_stream_xor_instance\<close> combines it with the bytes it is given);
  \<^item> \<open>JSON.parse\<close>, \<open>None\<close> where it throws, and \<open>JSON.stringify\<close>;
  \<^item> the chunks \<open>lengthPrefixedStream.encode()\<close> emits for one buffer written to it.
\<close>

record library =
  crypto_stream_NONCEBYTES :: nat
  crypto_stream_KEYBYTES :: nat
  crypto_stream :: "Buffer \<Rightarrow> Buffer \<Rightarrow> nat \<Rightarrow> byte"
  JSON_parse :: "Buffer \<Rightarrow> jsvalue option"
  JSON_stringify :: "jsvalue \<Rightarrow> Buffer"
  lengthPrefixedStream_encode :: "Buffer \<Rightarrow> Buffer list"

abbreviation STREAM_NONCEBYTES :: "library \<Rightarrow> nat" where
  "STREAM_NONCEBYTES L \<equiv> crypto_stream_NONCEBYTES L"

abbreviation STREAM_KEYBYTES :: "library \<Rightarrow> nat" where
  "STREAM_KEYBYTES L \<equiv> crypto_stream_KEYBYTES L"

definition HANDSHAKE_PREFIX :: nat where
  "HANDSHAKE_PREFIX = 0"

section \<open>The message type registry\<close>

text \<open>
  A schema stands for the validator \<open>ajv.compile\<close> returns for it: called on a value, it
  leaves \<open>null\<close> (\<open>None\<close>) in its \<open>errors\<close> when the value is valid and the list of its
  errors otherwise. A \<open>verify\<close> hook is the truth value of what it returns.
\<close>

type_synonym validator = "jsvalue \<Rightarrow> string list option"

datatype verify_option = NoVerify | NotAFunction | VerifyFunction "jsvalue \<Rightarrow> bool"

record message_options =
  schema :: "validator option"
  verify_opt :: verify_option

record options =
  opt_version :: rat
  messages :: "(string \<times> message_options) list"

record message_type =
  name :: string
  valid :: validator
  verify :: "jsvalue \<Rightarrow> bool"
  prefix :: nat

text \<open>
  What the closure of \<open>module.exports\<close> holds once the registry is built. The types of
  the options stand for the \<open>typeof\<close> assertions of the module.
\<close>

record protocol =
  version :: rat
  messageTypesByName :: "string \<rightharpoonup> message_type"
  messageTypesByPrefix :: "nat \<rightharpoonup> message_type"
  messageTypePrefixes :: "nat list"

definition Object_keys :: "(string \<times> 'a) list \<Rightarrow> string list" where
  "Object_keys obj = remdups (map fst obj)"

definition isSafeInteger :: "rat \<Rightarrow> bool" where
  "isSafeInteger x = (of_int \<lfloor>x\<rfloor> = x \<and> \<bar>x\<bar> \<le> 2 ^ 53 - 1)"

text \<open>
  The body of \<open>messageNames.sort().forEach(function (name, index) ...)\<close>: \<open>n\<close> is
  the name and \<open>i\<close> the index, counted up from call to call. The sender the body adds
  to the prototype under the name is \<open>_sendMessage\<close> called with that name; names are
  taken not to hide a method of the stream.
\<close>

fun forEach_name ::
  "(string \<times> message_options) list \<Rightarrow> string list \<Rightarrow> nat \<Rightarrow> protocol \<Rightarrow> error + protocol" where
  "forEach_name msgs [] i P = Inr P"
| "forEach_name msgs (n # names) i P =
     (case map_of msgs n of
        None \<Rightarrow> Inl (TypeError ''Cannot read properties of undefined'')
      | Some opts \<Rightarrow>
          (case schema opts of
             None \<Rightarrow> Inl (AssertionError ''message type must have schema'')
           | Some compiled \<Rightarrow>
               if verify_opt opts = NotAFunction
               then Inl (AssertionError ''verify must be a Function'')
               else
                 let p = i + 1; \<comment> \<open>Reserve prefix 0 for handshakes.\<close>
                     ty = \<lparr> name = n, valid = compiled,
                            verify = (case verify_opt opts of
                                        VerifyFunction f \<Rightarrow> f
                                      | _ \<Rightarrow> (\<lambda>_. True)),
                            prefix = p \<rparr>
                 in forEach_name msgs names (i + 1)
                      (P \<lparr> messageTypePrefixes := messageTypePrefixes P @ [p],
                           messageTypesByName := (messageTypesByName P)(n \<mapsto> ty),
                           messageTypesByPrefix := (messageTypesByPrefix P)(p \<mapsto> ty) \<rparr>)))"

definition module_exports :: "options \<Rightarrow> error + protocol" where
  "module_exports opts =
     (let v = opt_version opts in
      if \<not> v > 0 then Inl (AssertionError ''version must be greater than zero'')
      else if \<not> isSafeInteger v then Inl (AssertionError ''version must be safe integer'')
      else
        let messageNames = Object_keys (messages opts) in
        if length messageNames = 0 then Inl (AssertionError ''messages must have properties'')
        else forEach_name (messages opts) (sort messageNames) 0
               \<lparr> version = v, messageTypesByName = Map.empty,
                 messageTypesByPrefix = Map.empty, messageTypePrefixes = [0] \<rparr>)"


section \<open>The two validators of the module\<close>

text \<open>
  \<open>validTuple\<close> is the schema
  \<^verbatim>\<open>{type: 'array', items: [{type: 'number', enum: messageTypePrefixes}, {}], additionalItems: false}\<close>:
  an array of at most two items whose first item, when there is one, is a number equal
  to one of the prefixes. The schema has no \<open>minItems\<close>.
\<close>

definition validTuple :: "nat list \<Rightarrow> jsvalue \<Rightarrow> bool" where
  "validTuple prefixes data =
     (case data of
        JArray items \<Rightarrow>
          length items \<le> 2
          \<and> (case items of
               [] \<Rightarrow> True
             | first # _ \<Rightarrow> (case first of
                               JNumber x \<Rightarrow> x \<in> set (map of_nat prefixes)
                             | _ \<Rightarrow> False))
      | _ \<Rightarrow> False)"

text \<open>
  \<open>validHandshake\<close> is the schema of an object with the two required properties
  \<open>version\<close> (a number, \<open>multipleOf: 1\<close>, \<open>minimum: 1\<close>) and \<open>nonce\<close> (a string matching
  \<open>^[a-f0-9]{n}$\<close> for \<open>n = STREAM_NONCEBYTES * 2\<close>) and no other property. The keywords
  have their JSON Schema meaning: a multiple of 1 is an integer.
\<close>

definition lower_hex :: "char \<Rightarrow> bool" where
  "lower_hex c = (let n = of_char c :: nat in (97 \<le> n \<and> n \<le> 102) \<or> (48 \<le> n \<and> n \<le> 57))"

definition valid_version :: "jsvalue \<Rightarrow> bool" where
  "valid_version v = (case v of JNumber x \<Rightarrow> of_int \<lfloor>x\<rfloor> = x \<and> 1 \<le> x | _ \<Rightarrow> False)"

definition valid_nonce :: "library \<Rightarrow> jsvalue \<Rightarrow> bool" where
  "valid_nonce L v =
     (case v of JString s \<Rightarrow> length s = STREAM_NONCEBYTES L * 2 \<and> list_all lower_hex s | _ \<Rightarrow> False)"

definition validHandshake :: "library \<Rightarrow> jsvalue \<Rightarrow> bool" where
  "validHandshake L data =
     (case data of
        JObject entries \<Rightarrow>
          (case map_of entries ''version'' of None \<Rightarrow> False | Some v \<Rightarrow> valid_version v)
          \<and> (case map_of entries ''nonce'' of None \<Rightarrow> False | Some v \<Rightarrow> valid_nonce L v)
          \<and> list_all (\<lambda>k. k = ''version'' \<or> k = ''nonce'') (map fst entries)
      | _ \<Rightarrow> False)"

section \<open>A channel\<close>

text \<open>
  The instance \<open>crypto_stream_xor_instance(nonce, key)\<close> returns: \<open>update\<close> combines
  the bytes with the key stream from the position it has reached and moves on.
\<close>

record cipher =
  cipher_nonce :: Buffer
  cipher_key :: Buffer
  cipher_position :: nat

definition initializeCipher :: "library \<Rightarrow> Buffer \<Rightarrow> Buffer \<Rightarrow> error + cipher" where
  "initializeCipher L nonce secretKey =
     (if length nonce \<noteq> STREAM_NONCEBYTES L
      then Inl (AssertionError ''nonce must be STREAM_NONCEBYTES long'')
      else if length secretKey \<noteq> STREAM_KEYBYTES L
      then Inl (AssertionError ''secretKey must be STREAM_KEYBYTES long'')
      else Inr \<lparr> cipher_nonce = nonce, cipher_key = secretKey, cipher_position = 0 \<rparr>)"

definition update :: "library \<Rightarrow> cipher \<Rightarrow> Buffer \<Rightarrow> cipher \<times> Buffer" where
  "update L c chunk =
     (c \<lparr> cipher_position := cipher_position c + length chunk \<rparr>,
      map (\<lambda>i. (chunk ! i) XOR crypto_stream L (cipher_nonce c) (cipher_key c) (cipher_position c + i))
        [0 ..< length chunk])"

text \<open>
  The fields of an instance, and what it has done so far: the chunks its readable side
  has pushed, the events it has emitted, the error it was destroyed with, whether its
  encoder stream was ended, the ciphers \<open>final()\<close> was called on, and the callbacks
  that the encoder stream holds and will call on a later tick, oldest first: the one
  \<open>handshake\<close> gave to \<open>write\<close>, the one of a sender, the one given to \<open>end\<close>. A
  write callback waits with the error the stream will give it.
\<close>

datatype direction = Sending | Receiving

type_synonym event = "string \<times> jsvalue list"

datatype waiting =
    Handshake_written "error option"
  | Message_written "error option"
  | Encoder_finished

record channel =
  key :: Buffer
  sendingNonce :: Buffer
  sendingCipher :: "cipher option"
  sentNonce :: bool
  receivingNonce :: "Buffer option"
  receivingCipher :: "cipher option"
  pushed :: "Buffer list"
  emitted :: "event list"
  destroyed :: "error option"
  encoderEnded :: bool
  finalized :: "direction list"
  waiting :: "waiting list"

text \<open>
  What a call does besides changing the instance: it throws, it calls its callback
  (with an error or with nothing), it returns with its callback left to a stream, or
  it returns and the callback is never called.
\<close>

datatype outcome = Throws error | Calls_back "error option" | Callback_waits | No_callback

definition emit :: "channel \<Rightarrow> string \<Rightarrow> jsvalue list \<Rightarrow> channel" where
  "emit self ev args = self \<lparr> emitted := emitted self @ [(ev, args)] \<rparr>"

text \<open>\<open>destroy(error)\<close> of Duplexify: the first call destroys the stream, later ones do nothing.\<close>

definition destroy :: "channel \<Rightarrow> error \<Rightarrow> channel" where
  "destroy self e = (if destroyed self = None then self \<lparr> destroyed := Some e \<rparr> else self)"

text \<open>
  The constructor; \<open>randombytes\<close> is what \<open>sodium.randombytes_buf\<close> writes at each
  index of the nonce.
\<close>

definition Protocol :: "library \<Rightarrow> Buffer \<Rightarrow> (nat \<Rightarrow> byte) \<Rightarrow> error + channel" where
  "Protocol L k randombytes =
     (if length k \<noteq> STREAM_KEYBYTES L
      then Inl (AssertionError ''key must be crypto_stream_KEYBYTES long'')
      else
        let nonce = map randombytes [0 ..< STREAM_NONCEBYTES L] in
        case initializeCipher L nonce k of
          Inl e \<Rightarrow> Inl e
        | Inr c \<Rightarrow>
            Inr \<lparr> key = k, sendingNonce = nonce, sendingCipher = Some c, sentNonce = False,
                  receivingNonce = None, receivingCipher = None, pushed = [], emitted = [],
                  destroyed = None, encoderEnded = False, finalized = [], waiting = [] \<rparr>)"

text \<open>The transform of \<open>_readableStream\<close>: once we have sent our nonce, encrypt.\<close>

definition readableStream :: "library \<Rightarrow> channel \<Rightarrow> Buffer \<Rightarrow> error + channel" where
  "readableStream L self chunk =
     (if sentNonce self then
        (case sendingCipher self of
           None \<Rightarrow> Inl (TypeError ''Cannot read properties of null (reading update)'')
         | Some c \<Rightarrow>
             Inr (self \<lparr> sendingCipher := Some (fst (update L c chunk)),
                         pushed := pushed self @ [snd (update L c chunk)] \<rparr>))
      else Inr (self \<lparr> pushed := pushed self @ [chunk] \<rparr>))"

text \<open>
  The transform of \<open>_writableStream\<close>: once we have been given a nonce, decrypt; until
  then, write in the clear. The second component is the chunk handed on to the decoder.
\<close>

definition writableStream :: "library \<Rightarrow> channel \<Rightarrow> Buffer \<Rightarrow> channel \<times> Buffer" where
  "writableStream L self chunk =
     (case receivingCipher self of
        Some c \<Rightarrow> (self \<lparr> receivingCipher := Some (fst (update L c chunk)) \<rparr>, snd (update L c chunk))
      | None \<Rightarrow> (self, chunk))"

text \<open>\<open>_encoderStream.pipe(_readableStream)\<close>: each chunk of the encoder goes through the transform.\<close>

fun pipe :: "library \<Rightarrow> channel \<Rightarrow> Buffer list \<Rightarrow> error + channel" where
  "pipe L self [] = Inr self"
| "pipe L self (chunk # chunks) =
     (case readableStream L self chunk of
        Inl e \<Rightarrow> Inl e
      | Inr s \<Rightarrow> pipe L s chunks)"

text \<open>
  \<open>_encoderStream.write(buffer, callback)\<close>. The chunks of the buffer go through the
  transform during the call; the callback is not called during the call: the stream
  keeps it for a later tick, with \<open>failure\<close>, the error it will give it (\<open>None\<close> when
  the buffer was written). A stream that was ended writes nothing; it has no listener
  for its \<open>error\<close> event, which is therefore thrown.
\<close>

definition encoderStream_write ::
  "library \<Rightarrow> channel \<Rightarrow> Buffer \<Rightarrow> error option \<Rightarrow> (error option \<Rightarrow> waiting)
     \<Rightarrow> outcome \<times> channel" where
  "encoderStream_write L self buffer failure callback =
     (if encoderEnded self then (Throws (Error ''write after end''), self)
      else
        (case failure of
           Some e \<Rightarrow> (Callback_waits, self \<lparr> waiting := waiting self @ [callback (Some e)] \<rparr>)
         | None \<Rightarrow>
             (case pipe L self (lengthPrefixedStream_encode L buffer) of
                Inl e \<Rightarrow> (Throws e, self)
              | Inr s \<Rightarrow> (Callback_waits, s \<lparr> waiting := waiting s @ [callback None] \<rparr>))))"

definition Protocol_encode ::
  "library \<Rightarrow> channel \<Rightarrow> nat \<Rightarrow> jsvalue \<Rightarrow> error option \<Rightarrow> (error option \<Rightarrow> waiting)
     \<Rightarrow> outcome \<times> channel" where
  "Protocol_encode L self p body failure callback =
     (let tuple = JArray [JNumber (of_nat p), body];
          buffer = JSON_stringify L tuple
      in encoderStream_write L self buffer failure callback)"

text \<open>
  Send our handshake message. The callback given to \<open>_encode\<close>, which sets \<open>_sentNonce\<close>,
  is \<open>Handshake_written\<close>; it runs in \<open>run_callback\<close> below.
\<close>

definition Protocol_handshake ::
  "library \<Rightarrow> protocol \<Rightarrow> channel \<Rightarrow> error option \<Rightarrow> outcome \<times> channel" where
  "Protocol_handshake L P self failure =
     (if sentNonce self then (Calls_back (Some (Error ''already sent handshake'')), self)
      else
        Protocol_encode L self HANDSHAKE_PREFIX
          (JObject [(''version'', JNumber (version P)),
                    (''nonce'', JString (toString_hex (sendingNonce self)))])
          failure Handshake_written)"

text \<open>
  Send a protocol-defined message. \<open>messageTypesByName\<close> is a plain object and the guard
  calls its \<open>hasOwnProperty\<close>: when a message type has that name, the property is the
  type and not a function, and the call throws. A type named \<open>__proto__\<close> was assigned
  as the prototype of the object and is no property of its own.
\<close>

definition Protocol_sendMessage ::
  "library \<Rightarrow> protocol \<Rightarrow> channel \<Rightarrow> string \<Rightarrow> jsvalue \<Rightarrow> error option \<Rightarrow> outcome \<times> channel" where
  "Protocol_sendMessage L P self typeName data failure =
     (if messageTypesByName P ''hasOwnProperty'' \<noteq> None
      then (Throws (TypeError ''messageTypesByName.hasOwnProperty is not a function''), self)
      else if typeName = ''__proto__''
      then (Throws (AssertionError (''unknown message type: '' @ typeName)), self)
      else
        (case messageTypesByName P typeName of
           None \<Rightarrow> (Throws (AssertionError (''unknown message type: '' @ typeName)), self)
         | Some ty \<Rightarrow>
             if valid ty data = None \<and> verify ty data
             then Protocol_encode L self (prefix ty) data failure Message_written
             else (Throws (Invalid (''invalid '' @ typeName) (valid ty data)), self)))"

text \<open>
  \<open>finalize\<close>. It calls \<open>self._finalize\<close>, which the module defines nowhere: as the module
  is, the call throws. With a \<open>_finalize\<close> added from outside, \<open>Reports\<close> is the error it
  gives its callback, \<open>None\<close> when it gives none. \<open>_encoderStream.end(callback)\<close> leaves the
  callback to the stream, unless the stream was ended before, when it is dropped.
\<close>

datatype hook = Not_defined | Reports "error option"

definition Protocol_finalize :: "library \<Rightarrow> channel \<Rightarrow> hook \<Rightarrow> outcome \<times> channel" where
  "Protocol_finalize L self hook =
     (case hook of
        Not_defined \<Rightarrow> (Throws (TypeError ''self._finalize is not a function''), self)
      | Reports (Some e) \<Rightarrow> (No_callback, destroy self e)
      | Reports None \<Rightarrow>
          let s1 = (if encoderEnded self then self
                    else self \<lparr> encoderEnded := True, waiting := waiting self @ [Encoder_finished] \<rparr>)
          in
          (case sendingCipher s1 of
             None \<Rightarrow> (Throws (TypeError ''Cannot read properties of null (reading final)''), s1)
           | Some _ \<Rightarrow>
               let s2 = s1 \<lparr> finalized := finalized s1 @ [Sending], sendingCipher := None \<rparr> in
               (case receivingCipher s2 of
                  None \<Rightarrow> (Throws (TypeError ''Cannot read properties of null (reading final)''), s2)
                | Some _ \<Rightarrow>
                    (Callback_waits,
                     s2 \<lparr> finalized := finalized s2 @ [Receiving], receivingCipher := None \<rparr>))))"

text \<open>
  A later tick: the stream calls the callback that has waited longest. The callback of
  \<open>handshake\<close> hands an error on and otherwise sets \<open>_sentNonce\<close>; the others are the
  application's.
\<close>

definition run_callback :: "channel \<Rightarrow> outcome \<times> channel" where
  "run_callback self =
     (case waiting self of
        [] \<Rightarrow> (No_callback, self)
      | Handshake_written (Some e) # rest \<Rightarrow> (Calls_back (Some e), self \<lparr> waiting := rest \<rparr>)
      | Handshake_written None # rest \<Rightarrow>
          (Calls_back None, self \<lparr> waiting := rest, sentNonce := True \<rparr>)
      | Message_written failure # rest \<Rightarrow> (Calls_back failure, self \<lparr> waiting := rest \<rparr>)
      | Encoder_finished # rest \<Rightarrow> (Calls_back None, self \<lparr> waiting := rest \<rparr>))"

text \<open>
  \<open>messageTypesByPrefix[prefix]\<close>: after \<open>validTuple\<close> the prefix is one of the numbers
  of \<open>messageTypePrefixes\<close> or, for an empty array, \<open>undefined\<close>.
\<close>

definition byPrefix :: "(nat \<rightharpoonup> message_type) \<Rightarrow> jsvalue \<Rightarrow> message_type option" where
  "byPrefix table p =
     (case p of
        JNumber x \<Rightarrow> (if 0 \<le> x \<and> of_int \<lfloor>x\<rfloor> = x then table (nat \<lfloor>x\<rfloor>) else None)
      | _ \<Rightarrow> None)"

definition Protocol_parse ::
  "library \<Rightarrow> protocol \<Rightarrow> channel \<Rightarrow> Buffer \<Rightarrow> outcome \<times> channel" where
  "Protocol_parse L P self message =
     (case JSON_parse L message of
        None \<Rightarrow> (Calls_back (Some SyntaxError), self)
      | Some parsed \<Rightarrow>
          if \<not> validTuple (messageTypePrefixes P) parsed
          then (Calls_back (Some (Error ''invalid tuple'')), self)
          else
            let p = element parsed 0; body = element parsed 1 in
            if p = JNumber 0 \<and> validHandshake L body then
              if JNumber (version P) \<noteq> property body ''version''
              then (Calls_back (Some (VersionMismatch (property body ''version''))), self)
              else if receivingCipher self = None then
                (case property body ''nonce'' of
                   JString hex \<Rightarrow>
                     let s1 = self \<lparr> receivingNonce := Some (Buffer_from_hex hex) \<rparr> in
                     if length (Buffer_from_hex hex) \<noteq> STREAM_NONCEBYTES L
                     then (Throws (AssertionError ''receiving nonce must be STREAM_NONCEBYTES long''), s1)
                     else
                       (case initializeCipher L (Buffer_from_hex hex) (key s1) of
                          Inl e \<Rightarrow> (Throws e, s1)
                        | Inr c \<Rightarrow>
                            (Calls_back None, emit (s1 \<lparr> receivingCipher := Some c \<rparr>) ''handshake'' []))
                 | _ \<Rightarrow> (Throws (TypeError ''The first argument must be of type string''), self))
              else (Calls_back None, emit self ''handshake'' [])
            else
              (case byPrefix (messageTypesByPrefix P) p of
                 None \<Rightarrow> (Calls_back None, emit self ''invalid'' [body])
               | Some ty \<Rightarrow>
                   if valid ty body \<noteq> None \<or> \<not> verify ty body
                   then (Calls_back None, emit self ''invalid'' [body])
                   else (Calls_back None, emit self (name ty) [body])))"

text \<open>
  The transform of \<open>_parserStream\<close> with the \<open>error\<close> listener of the pipeline: an error
  given to the callback destroys the instance. The first component is what the transform
  throws.
\<close>

definition parserStream ::
  "library \<Rightarrow> protocol \<Rightarrow> channel \<Rightarrow> Buffer \<Rightarrow> error option \<times> channel" where
  "parserStream L P self chunk =
     (case Protocol_parse L P self chunk of
        (Calls_back (Some e), s) \<Rightarrow> (None, destroy s e)
      | (Throws e, s) \<Rightarrow> (Some e, s)
      | (_, s) \<Rightarrow> (None, s))"

text \<open>The frames the decoder hands to \<open>_parserStream\<close>, one after the other.\<close>

fun parserStream_frames ::
  "library \<Rightarrow> protocol \<Rightarrow> channel \<Rightarrow> Buffer list \<Rightarrow> error option \<times> channel" where
  "parserStream_frames L P self [] = (None, self)"
| "parserStream_frames L P self (chunk # chunks) =
     (case parserStream L P self chunk of
        (Some e, s) \<Rightarrow> (Some e, s)
      | (None, s) \<Rightarrow> parserStream_frames L P s chunks)"


text \<open>
  A handshake frame: it parses as the pair of prefix 0 and a body that passes
  \<open>validHandshake\<close> and declares the version of the protocol.
\<close>

definition handshake_frame :: "library \<Rightarrow> protocol \<Rightarrow> Buffer \<Rightarrow> bool" where
  "handshake_frame L P message =
     (case JSON_parse L message of
        None \<Rightarrow> False
      | Some parsed \<Rightarrow>
          parsed = JArray [JNumber 0, element parsed 1]
          \<and> validHandshake L (element parsed 1)
          \<and> property (element parsed 1) ''version'' = JNumber (version P))"

section \<open>Calls on an instance, one after the other\<close>

text \<open>
  What the application, the streams and the transport do to an instance: the application
  calls \<open>handshake\<close>, a sender or \<open>finalize\<close> (each with what the stream or the hook
  answers), the encoder stream calls the callback that has waited longest, the transport
  writes a chunk, the decoder hands over a frame.
\<close>

datatype call =
    Call_handshake "error option"
  | Call_send string jsvalue "error option"
  | Call_finalize hook
  | Run_callback
  | Write_chunk Buffer
  | Parse_frame Buffer

fun perform :: "library \<Rightarrow> protocol \<Rightarrow> channel \<Rightarrow> call \<Rightarrow> channel" where
  "perform L P self (Call_handshake failure) = snd (Protocol_handshake L P self failure)"
| "perform L P self (Call_send typeName data failure) = snd (Protocol_sendMessage L P self typeName data failure)"
| "perform L P self (Call_finalize hook) = snd (Protocol_finalize L self hook)"
| "perform L P self Run_callback = snd (run_callback self)"
| "perform L P self (Write_chunk chunk) = fst (writableStream L self chunk)"
| "perform L P self (Parse_frame frame) = snd (parserStream L P self frame)"

text \<open>The module as it is: no call of \<open>finalize\<close> finds a \<open>_finalize\<close>.\<close>

fun as_it_is :: "call \<Rightarrow> bool" where
  "as_it_is (Call_finalize hook) = (hook = Not_defined)"
| "as_it_is _ = True"

text \<open>
  Nothing of the teardown of \<open>finalize\<close> has happened between two states: no further
  \<open>final()\<close>, the encoder stream ended in the one as in the other, an outbound cipher
  still there.
\<close>

definition no_teardown :: "channel \<Rightarrow> channel \<Rightarrow> bool" where
  "no_teardown self s =
     (finalized s = finalized self \<and> encoderEnded s = encoderEnded self
      \<and> (sendingCipher self = None) = (sendingCipher s = None))"

section \<open>The protocol of the test, and two peers\<close>

text \<open>
  The test of the module declares two message types, \<open>apple\<close> and \<open>orange\<close>, each a string
  constant, under version 1. The library below has the sizes of sodium's \<open>crypto_stream\<close>,
  the framing of length-prefixed-stream for a short buffer (a length byte, then the
  buffer), a key stream made up for the purpose, and \<open>JSON\<close> on the frames that follow.
\<close>

definition const_schema :: "string \<Rightarrow> validator" where
  "const_schema c v =
     (case v of
        JString x \<Rightarrow> (if x = c then None else Some [''const''])
      | _ \<Rightarrow> Some [''type''])"

definition apple_orange_options :: options where
  "apple_orange_options =
     \<lparr> opt_version = 1,
       messages = [(''orange'', \<lparr> schema = Some (const_schema ''orange''), verify_opt = NoVerify \<rparr>),
                   (''apple'', \<lparr> schema = Some (const_schema ''apple''), verify_opt = NoVerify \<rparr>)] \<rparr>"

definition apple_type :: message_type where
  "apple_type = \<lparr> name = ''apple'', valid = const_schema ''apple'', verify = (\<lambda>_. True), prefix = 1 \<rparr>"

definition orange_type :: message_type where
  "orange_type = \<lparr> name = ''orange'', valid = const_schema ''orange'', verify = (\<lambda>_. True), prefix = 2 \<rparr>"

definition apple_orange :: protocol where
  "apple_orange =
     \<lparr> version = 1,
       messageTypesByName = [''apple'' \<mapsto> apple_type, ''orange'' \<mapsto> orange_type],
       messageTypesByPrefix = [1 \<mapsto> apple_type, 2 \<mapsto> orange_type],
       messageTypePrefixes = [0, 1, 2] \<rparr>"

text \<open>A protocol with one message type, whose name is \<open>hasOwnProperty\<close>.\<close>

definition shadow_options :: options where
  "shadow_options =
     \<lparr> opt_version = 1,
       messages = [(''hasOwnProperty'',
                    \<lparr> schema = Some (const_schema ''apple''), verify_opt = NoVerify \<rparr>)] \<rparr>"

definition shadow_type :: message_type where
  "shadow_type =
     \<lparr> name = ''hasOwnProperty'', valid = const_schema ''apple'', verify = (\<lambda>_. True), prefix = 1 \<rparr>"

definition shadow :: protocol where
  "shadow =
     \<lparr> version = 1,
       messageTypesByName = [''hasOwnProperty'' \<mapsto> shadow_type],
       messageTypesByPrefix = [1 \<mapsto> shadow_type],
       messageTypePrefixes = [0, 1] \<rparr>"

definition ascii :: "string \<Rightarrow> Buffer" where
  "ascii s = map (\<lambda>c. of_nat (of_char c)) s"

definition hex_bob :: string where
  "hex_bob = ''000102030405060708090a0b0c0d0e0f1011121314151617''"

definition hex_carol :: string where
  "hex_carol = ''ffffffffffffffffffffffffffffffffffffffffffffffff''"

definition hex_anna :: string where
  "hex_anna = ''090909090909090909090909090909090909090909090909''"

definition handshake_anna :: jsvalue where
  "handshake_anna = JObject [(''version'', JNumber 1), (''nonce'', JString hex_anna)]"

definition frame_anna :: Buffer where
  \<open>frame_anna = ascii ''[0,{"version":1,"nonce":"090909090909090909090909090909090909090909090909"}]''\<close>

definition handshake_bob :: jsvalue where
  "handshake_bob = JObject [(''version'', JNumber 1), (''nonce'', JString hex_bob)]"

definition handshake_carol :: jsvalue where
  "handshake_carol = JObject [(''version'', JNumber 1), (''nonce'', JString hex_carol)]"

definition handshake_version2 :: jsvalue where
  "handshake_version2 = JObject [(''version'', JNumber 2), (''nonce'', JString hex_bob)]"

definition frame_bob :: Buffer where
  \<open>frame_bob = ascii ''[0,{"version":1,"nonce":"000102030405060708090a0b0c0d0e0f1011121314151617"}]''\<close>

definition frame_carol :: Buffer where
  \<open>frame_carol = ascii ''[0,{"version":1,"nonce":"ffffffffffffffffffffffffffffffffffffffffffffffff"}]''\<close>

definition frame_version2 :: Buffer where
  \<open>frame_version2 = ascii ''[0,{"version":2,"nonce":"000102030405060708090a0b0c0d0e0f1011121314151617"}]''\<close>

definition frame_unknown :: Buffer where
  \<open>frame_unknown = ascii ''[3,"x"]''\<close>

definition frame_junk :: Buffer where
  \<open>frame_junk = ascii ''[0,"junk"]''\<close>

definition frame_apple :: Buffer where
  \<open>frame_apple = ascii ''[1,"apple"]''\<close>

definition frame_pear :: Buffer where
  \<open>frame_pear = ascii ''[1,"pear"]''\<close>

definition frame_triple :: Buffer where
  \<open>frame_triple = ascii ''[1,"apple",2]''\<close>

definition frame_brace :: Buffer where
  "frame_brace = ascii ''{''"

definition stub_parse :: "Buffer \<Rightarrow> jsvalue option" where
  "stub_parse =
     map_of [(frame_bob, JArray [JNumber 0, handshake_bob]),
             (frame_carol, JArray [JNumber 0, handshake_carol]),
             (frame_version2, JArray [JNumber 0, handshake_version2]),
             (frame_unknown, JArray [JNumber 3, JString ''x'']),
             (frame_junk, JArray [JNumber 0, JString ''junk'']),
             (frame_pear, JArray [JNumber 1, JString ''pear'']),
             (frame_triple, JArray [JNumber 1, JString ''apple'', JNumber 2])]"

definition stub_stringify :: "jsvalue \<Rightarrow> Buffer" where
  "stub_stringify v =
     (if v = JArray [JNumber 0, handshake_bob] then frame_bob
      else if v = JArray [JNumber 0, handshake_anna] then frame_anna
      else if v = JArray [JNumber 1, JString ''apple''] then frame_apple
      else if v = JArray [JNumber 1, JString ''pear''] then frame_pear
      else ascii ''null'')"

definition stub_stream :: "Buffer \<Rightarrow> Buffer \<Rightarrow> nat \<Rightarrow> byte" where
  "stub_stream nonce k i = (nonce ! (i mod 24)) + (k ! (i mod 32)) + of_nat i"

definition stub :: library where
  "stub =
     \<lparr> crypto_stream_NONCEBYTES = 24, crypto_stream_KEYBYTES = 32,
       crypto_stream = stub_stream,
       JSON_parse = stub_parse, JSON_stringify = stub_stringify,
       lengthPrefixedStream_encode = (\<lambda>buffer. [[of_nat (length buffer)], buffer]) \<rparr>"

definition replicationKey :: Buffer where
  "replicationKey = replicate 32 7"

definition nonce_bob :: Buffer where
  "nonce_bob = map of_nat [0 ..< 24]"

definition nonce_anna :: Buffer where
  "nonce_anna = replicate 24 9"

text \<open>
  Bob and Anna as the constructor leaves them, and Anna once she has sent her handshake,
  its callback has run and Bob's handshake has reached her.
\<close>

definition bob :: channel where
  "bob =
     \<lparr> key = replicationKey, sendingNonce = nonce_bob,
       sendingCipher = Some \<lparr> cipher_nonce = nonce_bob, cipher_key = replicationKey, cipher_position = 0 \<rparr>,
       sentNonce = False, receivingNonce = None, receivingCipher = None, pushed = [],
       emitted = [], destroyed = None, encoderEnded = False, finalized = [],
       waiting = [] \<rparr>"

definition anna_new :: channel where
  "anna_new =
     \<lparr> key = replicationKey, sendingNonce = nonce_anna,
       sendingCipher = Some \<lparr> cipher_nonce = nonce_anna, cipher_key = replicationKey, cipher_position = 0 \<rparr>,
       sentNonce = False, receivingNonce = None, receivingCipher = None, pushed = [],
       emitted = [], destroyed = None, encoderEnded = False, finalized = [],
       waiting = [] \<rparr>"

definition anna :: channel where
  "anna =
     \<lparr> key = replicationKey, sendingNonce = nonce_anna,
       sendingCipher = Some \<lparr> cipher_nonce = nonce_anna, cipher_key = replicationKey, cipher_position = 0 \<rparr>,
       sentNonce = True, receivingNonce = Some nonce_bob,
       receivingCipher = Some \<lparr> cipher_nonce = nonce_bob, cipher_key = replicationKey, cipher_position = 0 \<rparr>,
       pushed = [[of_nat (length frame_anna)], frame_anna], emitted = [(''handshake'', [])],
       destroyed = None, encoderEnded = False, finalized = [], waiting = [] \<rparr>"

section \<open>Facts about the test protocol and the two peers\<close>

lemma sort_names: "sort [''orange'', ''apple''] = [''apple'', ''orange'']"
  by code_simp

lemma module_exports_apple_orange: "module_exports apple_orange_options = Inr apple_orange"
  by (simp add: module_exports_def apple_orange_options_def apple_orange_def apple_type_def
      orange_type_def Object_keys_def isSafeInteger_def sort_names Let_def numeral_2_eq_2)

lemma from_hex_bob: "Buffer_from_hex hex_bob = nonce_bob" by code_simp

lemma validHandshake_bob: "validHandshake stub handshake_bob"
  by (simp add: validHandshake_def valid_version_def valid_nonce_def lower_hex_def stub_def
      handshake_bob_def hex_bob_def)


lemma frames_distinct:
  "frame_bob \<noteq> frame_carol" "frame_bob \<noteq> frame_version2" "frame_bob \<noteq> frame_unknown"
  "frame_bob \<noteq> frame_junk" "frame_bob \<noteq> frame_pear" "frame_bob \<noteq> frame_triple"
  "frame_carol \<noteq> frame_version2" "frame_carol \<noteq> frame_unknown" "frame_carol \<noteq> frame_junk"
  "frame_carol \<noteq> frame_pear" "frame_carol \<noteq> frame_triple"
  "frame_version2 \<noteq> frame_unknown" "frame_version2 \<noteq> frame_junk" "frame_version2 \<noteq> frame_pear"
  "frame_version2 \<noteq> frame_triple"
  "frame_unknown \<noteq> frame_junk" "frame_unknown \<noteq> frame_pear" "frame_unknown \<noteq> frame_triple"
  "frame_junk \<noteq> frame_pear" "frame_junk \<noteq> frame_triple" "frame_pear \<noteq> frame_triple"
  by (simp_all add: frame_bob_def frame_carol_def frame_version2_def frame_unknown_def
      frame_junk_def frame_pear_def frame_triple_def ascii_def)

lemma frame_brace_distinct:
  "frame_brace \<noteq> frame_bob" "frame_brace \<noteq> frame_carol" "frame_brace \<noteq> frame_version2"
  "frame_brace \<noteq> frame_unknown" "frame_brace \<noteq> frame_junk" "frame_brace \<noteq> frame_pear"
  "frame_brace \<noteq> frame_triple"
  by (simp_all add: frame_bob_def frame_carol_def frame_version2_def frame_unknown_def
      frame_junk_def frame_pear_def frame_triple_def frame_brace_def ascii_def)

lemma stub_parse_frames:
  "JSON_parse stub frame_bob = Some (JArray [JNumber 0, handshake_bob])"
  "JSON_parse stub frame_carol = Some (JArray [JNumber 0, handshake_carol])"
  "JSON_parse stub frame_version2 = Some (JArray [JNumber 0, handshake_version2])"
  "JSON_parse stub frame_unknown = Some (JArray [JNumber 3, JString ''x''])"
  "JSON_parse stub frame_junk = Some (JArray [JNumber 0, JString ''junk''])"
  "JSON_parse stub frame_pear = Some (JArray [JNumber 1, JString ''pear''])"
  "JSON_parse stub frame_triple = Some (JArray [JNumber 1, JString ''apple'', JNumber 2])"
  "JSON_parse stub frame_brace = None"
  using frames_distinct frame_brace_distinct
  by (simp_all add: stub_def stub_parse_def)

lemma validHandshake_carol: "validHandshake stub handshake_carol"
  by (simp add: validHandshake_def valid_version_def valid_nonce_def lower_hex_def stub_def
      handshake_carol_def hex_carol_def)


lemma destroyed_destroy: "destroyed (destroy self e) \<noteq> None"
  by (simp add: destroy_def)


lemma handshake_frames_stub:
  "handshake_frame stub apple_orange frame_bob" "handshake_frame stub apple_orange frame_carol"
  using validHandshake_bob validHandshake_carol
  by (simp_all add: handshake_frame_def stub_parse_frames element_def property_def
      handshake_bob_def handshake_carol_def apple_orange_def)

lemma hex_nonce_bob: "toString_hex nonce_bob = hex_bob"
  by code_simp

section \<open>The registry\<close>

lemma forEach_name_result:
  "forEach_name msgs names i P = Inr Q \<Longrightarrow> distinct names \<Longrightarrow>
     version Q = version P
   \<and> messageTypePrefixes Q = messageTypePrefixes P @ [i + 1 ..< i + 1 + length names]
   \<and> (\<forall>k < length names. \<exists>t. messageTypesByName Q (names ! k) = Some t
          \<and> messageTypesByPrefix Q (i + k + 1) = Some t
          \<and> name t = names ! k \<and> prefix t = i + k + 1)
   \<and> (\<forall>n. n \<notin> set names \<longrightarrow> messageTypesByName Q n = messageTypesByName P n)
   \<and> (\<forall>p. p \<le> i \<or> i + length names < p \<longrightarrow> messageTypesByPrefix Q p = messageTypesByPrefix P p)"
proof (induction names arbitrary: i P)
  case Nil
  then show ?case by simp
next
  case (Cons n names)
  from Cons.prems(1) obtain opts compiled where
    o: "map_of msgs n = Some opts" "schema opts = Some compiled" "verify_opt opts \<noteq> NotAFunction"
    by (auto split: option.splits if_splits)
  define ty where "ty = \<lparr> name = n, valid = compiled,
                            verify = (case verify_opt opts of
                                        VerifyFunction f \<Rightarrow> f
                                      | _ \<Rightarrow> (\<lambda>_. True)),
                            prefix = i + 1 \<rparr>"
  define P1 where "P1 = P \<lparr> messageTypePrefixes := messageTypePrefixes P @ [i + 1],
                           messageTypesByName := (messageTypesByName P)(n \<mapsto> ty),
                           messageTypesByPrefix := (messageTypesByPrefix P)(i + 1 \<mapsto> ty) \<rparr>"
  have rec: "forEach_name msgs names (i + 1) P1 = Inr Q"
    using Cons.prems(1) o by (simp add: Let_def ty_def P1_def)
  have d: "distinct names" "n \<notin> set names" using Cons.prems(2) by auto
  note IH = Cons.IH [OF rec d(1)]
  have v: "version Q = version P" using IH by (simp add: P1_def)
  have pf: "messageTypePrefixes Q = messageTypePrefixes P @ [i + 1 ..< i + 1 + length (n # names)]"
    using IH by (simp add: P1_def upt_rec)
  have byn: "messageTypesByName Q n = Some ty" using IH d(2) by (simp add: P1_def)
  have byp: "messageTypesByPrefix Q (i + 1) = Some ty" using IH by (simp add: P1_def)
  have idx: "\<exists>t. messageTypesByName Q ((n # names) ! k) = Some t
          \<and> messageTypesByPrefix Q (i + k + 1) = Some t
          \<and> name t = (n # names) ! k \<and> prefix t = i + k + 1" if "k < length (n # names)" for k
  proof (cases k)
    case 0
    then show ?thesis using byn byp by (simp add: ty_def)
  next
    case (Suc j)
    then have "j < length names" using that by simp
    with IH show ?thesis using Suc by simp
  qed
  have out: "messageTypesByName Q m = messageTypesByName P m" if "m \<notin> set (n # names)" for m
    using IH that by (simp add: P1_def)
  have outp: "messageTypesByPrefix Q p = messageTypesByPrefix P p"
    if "p \<le> i \<or> i + length (n # names) < p" for p
    using IH that by (auto simp add: P1_def)
  show ?case using v pf idx out outp by blast
qed

lemma names_sorted:
  "sorted (sort (Object_keys obj)) \<and> distinct (sort (Object_keys obj))
   \<and> set (sort (Object_keys obj)) = fst ` set obj"
  by (simp add: Object_keys_def)

lemma sort_keys: "sort (Object_keys c) = sorted_list_of_set (set (Object_keys c))"
  unfolding Object_keys_def by (simp add: sorted_list_of_set_sort_remdups del: set_map)

lemma sort_keys_cong:
  assumes "set (Object_keys a) = set (Object_keys b)"
  shows "sort (Object_keys a) = sort (Object_keys b)"
  by (simp only: sort_keys assms)

lemma module_exports_registry:
  assumes "module_exports opts = Inr P"
  shows "forEach_name (messages opts) (sort (Object_keys (messages opts))) 0
           \<lparr> version = opt_version opts, messageTypesByName = Map.empty,
             messageTypesByPrefix = Map.empty, messageTypePrefixes = [0] \<rparr> = Inr P"
  using assms by (simp add: module_exports_def Let_def split: if_splits)


lemma forEach_name_declared:
  "forEach_name msgs names i P = Inr Q \<Longrightarrow> distinct names \<Longrightarrow> n \<in> set names \<Longrightarrow>
     \<exists>t opts. messageTypesByName Q n = Some t \<and> map_of msgs n = Some opts
        \<and> schema opts = Some (valid t)
        \<and> verify t = (case verify_opt opts of VerifyFunction f \<Rightarrow> f | _ \<Rightarrow> (\<lambda>_. True))"
proof (induction names arbitrary: i P)
  case Nil
  then show ?case by simp
next
  case (Cons m names)
  from Cons.prems(1) obtain opts compiled where
    o: "map_of msgs m = Some opts" "schema opts = Some compiled" "verify_opt opts \<noteq> NotAFunction"
    by (auto split: option.splits if_splits)
  define ty where "ty = \<lparr> name = m, valid = compiled,
                            verify = (case verify_opt opts of
                                        VerifyFunction f \<Rightarrow> f
                                      | _ \<Rightarrow> (\<lambda>_. True)),
                            prefix = i + 1 \<rparr>"
  define P1 where "P1 = P \<lparr> messageTypePrefixes := messageTypePrefixes P @ [i + 1],
                           messageTypesByName := (messageTypesByName P)(m \<mapsto> ty),
                           messageTypesByPrefix := (messageTypesByPrefix P)(i + 1 \<mapsto> ty) \<rparr>"
  have rec: "forEach_name msgs names (i + 1) P1 = Inr Q"
    using Cons.prems(1) o by (simp add: Let_def ty_def P1_def)
  have d: "distinct names" "m \<notin> set names" using Cons.prems(2) by auto
  show ?case
  proof (cases "n \<in> set names")
    case True
    with rec d(1) show ?thesis by (rule Cons.IH)
  next
    case False
    with Cons.prems(3) have nm: "n = m" by simp
    from forEach_name_result [OF rec d(1), THEN conjunct2, THEN conjunct2, THEN conjunct2, THEN conjunct1]
    have "messageTypesByName Q m = messageTypesByName P1 m" using d(2) by blast
    then have "messageTypesByName Q m = Some ty" by (simp add: P1_def)
    moreover have "schema opts = Some (valid ty)" using o(2) by (simp add: ty_def)
    moreover have "verify ty = (case verify_opt opts of VerifyFunction f \<Rightarrow> f | _ \<Rightarrow> (\<lambda>_. True))"
      by (simp add: ty_def)
    ultimately show ?thesis using o(1) nm by blast
  qed
qed

lemma module_exports_declared:
  assumes "module_exports opts = Inr P" "map_of (messages opts) n = Some mo"
  shows "\<exists>t. messageTypesByName P n = Some t \<and> schema mo = Some (valid t)
        \<and> verify t = (case verify_opt mo of VerifyFunction f \<Rightarrow> f | _ \<Rightarrow> (\<lambda>_. True))"
proof -
  let ?names = "sort (Object_keys (messages opts))"
  have d: "distinct ?names" using names_sorted by blast
  have "n \<in> fst ` set (messages opts)"
    using assms(2) by (metis map_of_eq_None_iff option.distinct(1))
  then have "n \<in> set ?names" using names_sorted [of "messages opts"] by simp
  from forEach_name_declared [OF module_exports_registry [OF assms(1)] d this] assms(2)
  show ?thesis by auto
qed

text \<open>
  Claim C7. When \<open>module.exports\<close> accepts the options, the names are taken in
  lexicographic order without repetition, the name at index \<open>k\<close> of that order gets
  prefix \<open>k + 1\<close>, no message type has prefix 0 and none is registered under prefix 0,
  and two builds whose options have the same set of names give every name the same
  prefix.
\<close>

theorem prefix_assignment:
  assumes "module_exports opts = Inr P"
  shows "sorted (sort (Object_keys (messages opts)))
       \<and> distinct (sort (Object_keys (messages opts)))
       \<and> set (sort (Object_keys (messages opts))) = fst ` set (messages opts)
       \<and> (\<forall>k < length (sort (Object_keys (messages opts))).
             map_option prefix (messageTypesByName P (sort (Object_keys (messages opts)) ! k)) = Some (k + 1))
       \<and> (\<forall>n t. messageTypesByName P n = Some t \<longrightarrow> prefix t \<noteq> 0)
       \<and> messageTypesByPrefix P 0 = None
       \<and> (\<forall>opts' P'. module_exports opts' = Inr P'
               \<and> set (Object_keys (messages opts')) = set (Object_keys (messages opts))
             \<longrightarrow> (\<forall>n. map_option prefix (messageTypesByName P' n)
                        = map_option prefix (messageTypesByName P n)))"
proof -
  let ?names = "sort (Object_keys (messages opts))"
  have d: "distinct ?names" using names_sorted by blast
  note R0 = forEach_name_result [OF module_exports_registry [OF assms] d]
  from R0 [THEN conjunct2, THEN conjunct2, THEN conjunct1]
  have R: "\<forall>k < length ?names. \<exists>t. messageTypesByName P (?names ! k) = Some t \<and> prefix t = k + 1"
    by auto
  from R0 [THEN conjunct2, THEN conjunct2, THEN conjunct2, THEN conjunct1]
  have Rout: "\<forall>n. n \<notin> set ?names \<longrightarrow> messageTypesByName P n = None"
    by simp
  have idx: "\<forall>k < length ?names. map_option prefix (messageTypesByName P (?names ! k)) = Some (k + 1)"
  proof (intro allI impI)
    fix k assume "k < length ?names"
    with R obtain t where "messageTypesByName P (?names ! k) = Some t" "prefix t = k + 1" by blast
    then show "map_option prefix (messageTypesByName P (?names ! k)) = Some (k + 1)" by simp
  qed
  have out: "messageTypesByName P n = None" if "n \<notin> set ?names" for n
    using Rout that by blast
  have nz: "prefix t \<noteq> 0" if "messageTypesByName P n = Some t" for n t
  proof -
    have "n \<in> set ?names"
    proof (rule ccontr)
      assume "n \<notin> set ?names"
      then have "messageTypesByName P n = None" by (rule out)
      with that show False by simp
    qed
    then obtain k where "k < length ?names" "?names ! k = n" by (metis in_set_conv_nth)
    with idx have "map_option prefix (messageTypesByName P n) = Some (k + 1)" by blast
    with that show ?thesis by simp
  qed
  have p0: "messageTypesByPrefix P 0 = None"
    using R0 [THEN conjunct2, THEN conjunct2, THEN conjunct2, THEN conjunct2] by simp
  have det: "map_option prefix (messageTypesByName P' n) = map_option prefix (messageTypesByName P n)"
    if e: "module_exports opts' = Inr P'"
      and s: "set (Object_keys (messages opts')) = set (Object_keys (messages opts))" for opts' P' n
  proof -
    let ?names' = "sort (Object_keys (messages opts'))"
    have eq: "?names' = ?names" using s by (rule sort_keys_cong)
    have d': "distinct ?names'" using names_sorted by blast
    note R0' = forEach_name_result [OF module_exports_registry [OF e] d']
    from R0' [THEN conjunct2, THEN conjunct2, THEN conjunct1]
    have R': "\<forall>k < length ?names. \<exists>t. messageTypesByName P' (?names ! k) = Some t \<and> prefix t = k + 1"
      unfolding eq by auto
    from R0' [THEN conjunct2, THEN conjunct2, THEN conjunct2, THEN conjunct1]
    have Rout': "\<forall>n. n \<notin> set ?names \<longrightarrow> messageTypesByName P' n = None"
      unfolding eq by simp
    show ?thesis
    proof (cases "n \<in> set ?names")
      case True
      then obtain k where k: "k < length ?names" "?names ! k = n" by (metis in_set_conv_nth)
      have "map_option prefix (messageTypesByName P n) = Some (k + 1)" using idx k by blast
      moreover have "map_option prefix (messageTypesByName P' n) = Some (k + 1)"
      proof -
        from R' k obtain t where "messageTypesByName P' (?names ! k) = Some t" "prefix t = k + 1"
          by blast
        with k show ?thesis by simp
      qed
      ultimately show ?thesis by (simp only:)
    next
      case False
      then have "messageTypesByName P n = None" by (rule out)
      moreover have "messageTypesByName P' n = None" using Rout' False by blast
      ultimately show ?thesis by simp
    qed
  qed
  have c1: "sorted ?names" and c2: "distinct ?names" and c3: "set ?names = fst ` set (messages opts)"
    using names_sorted [of "messages opts"] by simp_all
  have nz': "\<forall>n t. messageTypesByName P n = Some t \<longrightarrow> prefix t \<noteq> 0"
    using nz by blast
  have det': "\<forall>opts' P'. module_exports opts' = Inr P'
               \<and> set (Object_keys (messages opts')) = set (Object_keys (messages opts))
             \<longrightarrow> (\<forall>n. map_option prefix (messageTypesByName P' n)
                        = map_option prefix (messageTypesByName P n))"
    using det by blast
  show ?thesis by (intro conjI) (rule c1 c2 c3 idx nz' p0 det')+
qed


text \<open>For the test protocol: \<open>apple\<close> has prefix 1 and \<open>orange\<close> prefix 2.\<close>

theorem prefix_assignment_witness:
  "module_exports apple_orange_options = Inr apple_orange
   \<and> map_option prefix (messageTypesByName apple_orange ''apple'') = Some 1
   \<and> map_option prefix (messageTypesByName apple_orange ''orange'') = Some 2
   \<and> messageTypesByPrefix apple_orange 0 = None"
proof -
  have s: "sort (Object_keys (messages apple_orange_options)) = [''apple'', ''orange'']"
    by (simp add: apple_orange_options_def Object_keys_def sort_names)
  note T = prefix_assignment [OF module_exports_apple_orange, unfolded s]
  from T have a: "\<forall>k < length [''apple'', ''orange''].
      map_option prefix (messageTypesByName apple_orange ([''apple'', ''orange''] ! k)) = Some (k + 1)"
    by (elim conjE)
  from a [rule_format, of 0]
  have "map_option prefix (messageTypesByName apple_orange ''apple'') = Some 1" by simp
  moreover from a [rule_format, of 1]
  have "map_option prefix (messageTypesByName apple_orange ''orange'') = Some 2"
    by (simp add: numeral_2_eq_2)
  moreover from T have "messageTypesByPrefix apple_orange 0 = None" by (elim conjE)
  ultimately show ?thesis using module_exports_apple_orange by (intro conjI)
qed


section \<open>The nonce of a handshake\<close>

lemma lower_hex_unhex: "lower_hex c \<Longrightarrow> \<exists>d. unhex c = Some d"
  by (auto simp: lower_hex_def unhex_def Let_def)

lemma Buffer_from_hex_length:
  "list_all lower_hex s \<Longrightarrow> length s = n * 2 \<Longrightarrow> length (Buffer_from_hex s) = n"
proof (induction s arbitrary: n rule: Buffer_from_hex.induct)
  case (1 a b rest)
  from 1(2) obtain h l where hl: "unhex a = Some h" "unhex b = Some l"
    using lower_hex_unhex by fastforce
  from 1(3) obtain m where n: "n = Suc m" by (cases n) auto
  with 1(3) have len: "length rest = m * 2" by simp
  from 1(2) have "list_all lower_hex rest" by simp
  from 1(1) [OF hl(1) hl(2) this len] show ?case using hl n by simp
qed simp_all

lemma validHandshake_nonce:
  assumes "validHandshake L body"
  shows "\<exists>hex. property body ''nonce'' = JString hex
           \<and> length (Buffer_from_hex hex) = STREAM_NONCEBYTES L"
proof -
  from assms obtain entries where b: "body = JObject entries"
    by (cases body) (simp_all add: validHandshake_def)
  from assms b obtain v where v: "map_of entries ''nonce'' = Some v" "valid_nonce L v"
    by (auto simp: validHandshake_def split: option.splits)
  from v(2) obtain hex where h: "v = JString hex" "length hex = STREAM_NONCEBYTES L * 2"
      "list_all lower_hex hex"
    by (cases v) (simp_all add: valid_nonce_def)
  have "length (Buffer_from_hex hex) = STREAM_NONCEBYTES L"
    using h(3) h(2) by (rule Buffer_from_hex_length)
  moreover have "property body ''nonce'' = JString hex"
    using b v(1) h(1) by (simp add: property_def)
  ultimately show ?thesis by blast
qed

lemma Protocol_parse_never_nonce_assertion:
  "fst (Protocol_parse L P self message) \<noteq> Throws (AssertionError ''receiving nonce must be STREAM_NONCEBYTES long'')
   \<and> fst (Protocol_parse L P self message) \<noteq> Throws (AssertionError ''nonce must be STREAM_NONCEBYTES long'')"
proof (cases "JSON_parse L message")
  case None
  then show ?thesis by (simp add: Protocol_parse_def)
next
  case (Some parsed)
  show ?thesis
  proof (cases "validHandshake L (element parsed 1)")
    case False
    then show ?thesis using Some
      by (simp add: Protocol_parse_def Let_def split: option.splits)
  next
    case True
    from validHandshake_nonce [OF True] obtain hex where
      h: "property (element parsed 1) ''nonce'' = JString hex"
         "length (Buffer_from_hex hex) = STREAM_NONCEBYTES L" by blast
    show ?thesis using Some h
      by (simp add: Protocol_parse_def Let_def initializeCipher_def split: option.splits)
  qed
qed


text \<open>
  Claim C10. A body that passes \<open>validHandshake\<close> has a \<open>nonce\<close> string which
  \<open>Buffer.from(nonce, 'hex')\<close> decodes to exactly \<open>STREAM_NONCEBYTES\<close> bytes, and
  \<open>_parse\<close> never throws the assertion on the length of the receiving nonce.
\<close>

theorem receiving_nonce_assert:
  "(validHandshake L body \<longrightarrow>
      (\<exists>hex. property body ''nonce'' = JString hex
         \<and> length (Buffer_from_hex hex) = STREAM_NONCEBYTES L))
   \<and> fst (Protocol_parse L P self message)
        \<noteq> Throws (AssertionError ''receiving nonce must be STREAM_NONCEBYTES long'')"
  using validHandshake_nonce [of L body] Protocol_parse_never_nonce_assertion [of L P self message]
  by blast


text \<open>Bob's handshake body passes the schema and his nonce decodes to 24 bytes.\<close>

theorem receiving_nonce_assert_witness:
  "validHandshake stub handshake_bob
   \<and> property handshake_bob ''nonce'' = JString hex_bob
   \<and> length (Buffer_from_hex hex_bob) = STREAM_NONCEBYTES stub"
proof -
  from receiving_nonce_assert [of stub handshake_bob apple_orange bob frame_bob] validHandshake_bob
  obtain hex where "property handshake_bob ''nonce'' = JString hex"
    "length (Buffer_from_hex hex) = STREAM_NONCEBYTES stub" by blast
  moreover have "property handshake_bob ''nonce'' = JString hex_bob"
    by (simp add: property_def handshake_bob_def)
  ultimately show ?thesis using validHandshake_bob by simp
qed

section \<open>Parsing a frame\<close>

lemma module_exports_prefixes:
  assumes "module_exports opts = Inr P"
  shows "messageTypePrefixes P = [0 ..< Suc (length (Object_keys (messages opts)))]"
proof -
  let ?names = "sort (Object_keys (messages opts))"
  have d: "distinct ?names" using names_sorted by blast
  from forEach_name_result [OF module_exports_registry [OF assms] d, THEN conjunct2, THEN conjunct1]
  have "messageTypePrefixes P = [0] @ [1 ..< 1 + length ?names]" by simp
  also have "\<dots> = 0 # [Suc 0 ..< Suc (length (Object_keys (messages opts)))]"
    by simp
  also have "\<dots> = [0 ..< Suc (length (Object_keys (messages opts)))]"
    by (rule upt_conv_Cons [symmetric]) simp
  finally show ?thesis .
qed

lemma module_exports_byPrefix:
  assumes "module_exports opts = Inr P"
  shows "messageTypesByPrefix P 0 = None"
    and "0 < k \<Longrightarrow> k \<le> length (Object_keys (messages opts)) \<Longrightarrow> messageTypesByPrefix P k \<noteq> None"
proof -
  let ?names = "sort (Object_keys (messages opts))"
  have d: "distinct ?names" using names_sorted by blast
  note R = forEach_name_result [OF module_exports_registry [OF assms] d]
  show "messageTypesByPrefix P 0 = None"
    using R [THEN conjunct2, THEN conjunct2, THEN conjunct2, THEN conjunct2] by simp
  assume k: "0 < k" "k \<le> length (Object_keys (messages opts))"
  then obtain j where j: "k = Suc j" "j < length ?names" by (cases k) auto
  from R [THEN conjunct2, THEN conjunct2, THEN conjunct1] j(2)
  obtain t where "messageTypesByPrefix P (0 + j + 1) = Some t" by blast
  with j show "messageTypesByPrefix P k \<noteq> None" by simp
qed

lemma byPrefix_zero:
  assumes "module_exports opts = Inr P"
  shows "byPrefix (messageTypesByPrefix P) (JNumber 0) = None"
  using module_exports_byPrefix(1) [OF assms] by (simp add: byPrefix_def)

lemma validTuple_pair:
  "validTuple prefixes (JArray [p, body]) = (\<exists>k \<in> set prefixes. p = JNumber (of_nat k))"
  by (cases p) (auto simp: validTuple_def)

lemma validTuple_handshake:
  assumes "module_exports opts = Inr P"
  shows "validTuple (messageTypePrefixes P) (JArray [JNumber 0, body])"
  unfolding validTuple_pair module_exports_prefixes [OF assms] by (auto intro: bexI [of _ 0])


lemma parserStream_calls_back:
  "Protocol_parse L P self message = (Calls_back (Some e), s) \<Longrightarrow>
     parserStream L P self message = (None, destroy s e)"
  "Protocol_parse L P self message = (Calls_back None, s) \<Longrightarrow>
     parserStream L P self message = (None, s)"
  by (simp_all add: parserStream_def)




lemma Protocol_parse_first_handshake:
  assumes "JSON_parse L message = Some parsed" "validTuple (messageTypePrefixes P) parsed"
    "element parsed 0 = JNumber 0" "validHandshake L (element parsed 1)"
    "property (element parsed 1) ''version'' = JNumber (version P)"
    "property (element parsed 1) ''nonce'' = JString hex"
    "receivingCipher self = None" "length (key self) = STREAM_KEYBYTES L"
  shows "Protocol_parse L P self message
       = (Calls_back None,
          emit (self \<lparr> receivingNonce := Some (Buffer_from_hex hex),
                       receivingCipher := Some \<lparr> cipher_nonce = Buffer_from_hex hex,
                                                cipher_key = key self, cipher_position = 0 \<rparr> \<rparr>)
            ''handshake'' [])"
proof -
  from validHandshake_nonce [OF assms(4)] assms(6)
  have "length (Buffer_from_hex hex) = STREAM_NONCEBYTES L" by simp
  then show ?thesis using assms
    by (simp add: Protocol_parse_def Let_def initializeCipher_def)
qed

lemma Protocol_parse_later_handshake:
  assumes "JSON_parse L message = Some parsed" "validTuple (messageTypePrefixes P) parsed"
    "element parsed 0 = JNumber 0" "validHandshake L (element parsed 1)"
    "property (element parsed 1) ''version'' = JNumber (version P)"
    "receivingCipher self \<noteq> None"
  shows "Protocol_parse L P self message = (Calls_back None, emit self ''handshake'' [])"
  using assms by (auto simp add: Protocol_parse_def Let_def)

lemma Protocol_parse_invalid:
  assumes "JSON_parse L message = Some parsed" "validTuple (messageTypePrefixes P) parsed"
    "\<not> (element parsed 0 = JNumber 0 \<and> validHandshake L (element parsed 1))"
    "case byPrefix (messageTypesByPrefix P) (element parsed 0) of
       None \<Rightarrow> True
     | Some ty \<Rightarrow> valid ty (element parsed 1) \<noteq> None \<or> \<not> verify ty (element parsed 1)"
  shows "Protocol_parse L P self message = (Calls_back None, emit self ''invalid'' [element parsed 1])"
  using assms by (auto simp add: Protocol_parse_def Let_def split: option.splits)

lemma handshake_frame_later:
  assumes "module_exports opts = Inr P" "handshake_frame L P message" "receivingCipher self \<noteq> None"
  shows "Protocol_parse L P self message = (Calls_back None, emit self ''handshake'' [])"
proof -
  from assms(2) obtain parsed where p: "JSON_parse L message = Some parsed"
    "parsed = JArray [JNumber 0, element parsed 1]" "validHandshake L (element parsed 1)"
    "property (element parsed 1) ''version'' = JNumber (version P)"
    by (auto simp: handshake_frame_def split: option.splits)
  have t: "validTuple (messageTypePrefixes P) parsed"
    using validTuple_handshake [OF assms(1), of "element parsed 1"] p(2) by simp
  have z: "element parsed 0 = JNumber 0"
    by (subst p(2)) (simp add: element_def)
  show ?thesis using p(1) t z p(3) p(4) assms(3) by (rule Protocol_parse_later_handshake)
qed

lemma parserStream_frames_later:
  assumes "module_exports opts = Inr P"
  shows "list_all (handshake_frame L P) ms \<Longrightarrow> receivingCipher self \<noteq> None \<Longrightarrow>
     parserStream_frames L P self ms
       = (None, self \<lparr> emitted := emitted self @ replicate (length ms) (''handshake'', []) \<rparr>)"
proof (induction ms arbitrary: self)
  case Nil
  then show ?case by simp
next
  case (Cons m ms)
  from Cons.prems have m: "handshake_frame L P m" and ms: "list_all (handshake_frame L P) ms"
    by simp_all
  have "Protocol_parse L P self m = (Calls_back None, emit self ''handshake'' [])"
    using assms m Cons.prems(2) by (rule handshake_frame_later)
  then have s: "parserStream L P self m = (None, emit self ''handshake'' [])"
    by (rule parserStream_calls_back(2))
  have c: "receivingCipher (emit self ''handshake'' []) \<noteq> None"
    using Cons.prems(2) by (simp add: emit_def)
  have "parserStream_frames L P (emit self ''handshake'' []) ms
       = (None, (emit self ''handshake'' [])
            \<lparr> emitted := emitted (emit self ''handshake'' []) @ replicate (length ms) (''handshake'', []) \<rparr>)"
    using ms c by (rule Cons.IH)
  then show ?case using s by (simp add: emit_def replicate_append_same)
qed






text \<open>
  Claim C3. On an instance with no inbound cipher and a key of the right length, a
  sequence of handshake frames throws nothing and calls back with no error; the inbound
  nonce and cipher are those of the first frame, and one \<open>handshake\<close> event is emitted for
  each frame. Once the inbound cipher exists, a handshake frame only emits the event.
\<close>

theorem inbound_cipher_once:
  assumes "module_exports opts = Inr P"
    and "receivingCipher self = None"
    and "length (key self) = STREAM_KEYBYTES L"
    and "list_all (handshake_frame L P) (m # ms)"
    and "JSON_parse L m = Some (JArray [JNumber 0, body])"
    and "property body ''nonce'' = JString hex"
  shows "parserStream_frames L P self (m # ms)
           = (None, self \<lparr> receivingNonce := Some (Buffer_from_hex hex),
                            receivingCipher := Some \<lparr> cipher_nonce = Buffer_from_hex hex,
                                                     cipher_key = key self, cipher_position = 0 \<rparr>,
                            emitted := emitted self @ replicate (Suc (length ms)) (''handshake'', []) \<rparr>)
       \<and> (\<forall>s f. receivingCipher s \<noteq> None \<and> handshake_frame L P f \<longrightarrow>
             Protocol_parse L P s f = (Calls_back None, s \<lparr> emitted := emitted s @ [(''handshake'', [])] \<rparr>))"
proof -
  let ?c = "\<lparr> cipher_nonce = Buffer_from_hex hex, cipher_key = key self, cipher_position = 0 \<rparr>"
  let ?s1 = "emit (self \<lparr> receivingNonce := Some (Buffer_from_hex hex), receivingCipher := Some ?c \<rparr>)
               ''handshake'' []"
  from assms(4) have m: "handshake_frame L P m" and ms: "list_all (handshake_frame L P) ms"
    by simp_all
  from m assms(5) have b: "validHandshake L body" "property body ''version'' = JNumber (version P)"
    by (simp_all add: handshake_frame_def element_def)
  have t: "validTuple (messageTypePrefixes P) (JArray [JNumber 0, body])"
    using assms(1) by (rule validTuple_handshake)
  have "Protocol_parse L P self m = (Calls_back None, ?s1)"
    using assms(5) t _ _ _ _ assms(2,3)
    by (rule Protocol_parse_first_handshake) (simp_all add: element_def b assms(6))
  then have first: "parserStream L P self m = (None, ?s1)"
    by (rule parserStream_calls_back(2))
  have c: "receivingCipher ?s1 \<noteq> None" by (simp add: emit_def)
  have rest: "parserStream_frames L P ?s1 ms
       = (None, ?s1 \<lparr> emitted := emitted ?s1 @ replicate (length ms) (''handshake'', []) \<rparr>)"
    using assms(1) ms c by (rule parserStream_frames_later)
  have all: "parserStream_frames L P self (m # ms)
           = (None, self \<lparr> receivingNonce := Some (Buffer_from_hex hex),
                            receivingCipher := Some ?c,
                            emitted := emitted self @ replicate (Suc (length ms)) (''handshake'', []) \<rparr>)"
    using first rest by (simp add: emit_def replicate_append_same)
  have later: "Protocol_parse L P s f = (Calls_back None, s \<lparr> emitted := emitted s @ [(''handshake'', [])] \<rparr>)"
    if "receivingCipher s \<noteq> None" "handshake_frame L P f" for s f
    using handshake_frame_later [OF assms(1) that(2) that(1)] by (simp add: emit_def)
  show ?thesis using all later by blast
qed


text \<open>Bob receives his own nonce, then another one, then his own again: the first stays.\<close>

theorem inbound_cipher_once_witness:
  "list_all (handshake_frame stub apple_orange) [frame_bob, frame_carol, frame_bob]
   \<and> parserStream_frames stub apple_orange bob [frame_bob, frame_carol, frame_bob]
       = (None, bob \<lparr> receivingNonce := Some nonce_bob,
                      receivingCipher := Some \<lparr> cipher_nonce = nonce_bob, cipher_key = replicationKey,
                                               cipher_position = 0 \<rparr>,
                      emitted := [(''handshake'', []), (''handshake'', []), (''handshake'', [])] \<rparr>)"
proof -
  have l: "list_all (handshake_frame stub apple_orange) [frame_bob, frame_carol, frame_bob]"
    using handshake_frames_stub by simp
  have r: "receivingCipher bob = None" by (simp add: bob_def)
  have k: "length (key bob) = STREAM_KEYBYTES stub" by (simp add: bob_def stub_def replicationKey_def)
  have n: "property handshake_bob ''nonce'' = JString hex_bob"
    by (simp add: property_def handshake_bob_def)
  from inbound_cipher_once [OF module_exports_apple_orange r k l stub_parse_frames(1) n]
  have "parserStream_frames stub apple_orange bob [frame_bob, frame_carol, frame_bob]
           = (None, bob \<lparr> receivingNonce := Some (Buffer_from_hex hex_bob),
                            receivingCipher := Some \<lparr> cipher_nonce = Buffer_from_hex hex_bob,
                                                     cipher_key = key bob, cipher_position = 0 \<rparr>,
                            emitted := emitted bob @ replicate (Suc (length [frame_carol, frame_bob])) (''handshake'', []) \<rparr>)"
    by (elim conjE)
  then show ?thesis using l by (simp add: from_hex_bob bob_def numeral_2_eq_2)
qed





text \<open>
  Claim C9. A frame that passes \<open>validTuple\<close> with prefix 0 and a body that fails
  \<open>validHandshake\<close> is not a handshake and not an error: no type is registered under
  prefix 0, so \<open>invalid\<close> is emitted with the body, and the instance is not destroyed.
\<close>

theorem invalid_handshake_body:
  assumes "module_exports opts = Inr P"
    and "JSON_parse L message = Some parsed"
    and "validTuple (messageTypePrefixes P) parsed"
    and "element parsed 0 = JNumber 0"
    and "\<not> validHandshake L (element parsed 1)"
  shows "byPrefix (messageTypesByPrefix P) (JNumber 0) = None
       \<and> Protocol_parse L P self message = (Calls_back None, emit self ''invalid'' [element parsed 1])
       \<and> parserStream L P self message = (None, emit self ''invalid'' [element parsed 1])
       \<and> destroyed (snd (parserStream L P self message)) = destroyed self
       \<and> receivingCipher (snd (parserStream L P self message)) = receivingCipher self"
proof -
  have z: "byPrefix (messageTypesByPrefix P) (JNumber 0) = None"
    using assms(1) by (rule byPrefix_zero)
  have p: "Protocol_parse L P self message = (Calls_back None, emit self ''invalid'' [element parsed 1])"
    using assms(2,3) by (rule Protocol_parse_invalid) (use assms(4,5) z in simp_all)
  have s: "parserStream L P self message = (None, emit self ''invalid'' [element parsed 1])"
    using p by (rule parserStream_calls_back(2))
  show ?thesis using z p s by (simp add: emit_def)
qed


text \<open>The frame \<open>[0,"junk"]\<close> at Bob.\<close>

theorem invalid_handshake_body_witness:
  "validTuple (messageTypePrefixes apple_orange) (JArray [JNumber 0, JString ''junk''])
   \<and> \<not> validHandshake stub (JString ''junk'')
   \<and> parserStream stub apple_orange bob frame_junk
       = (None, bob \<lparr> emitted := [(''invalid'', [JString ''junk''])] \<rparr>)"
proof -
  have t: "validTuple (messageTypePrefixes apple_orange) (JArray [JNumber 0, JString ''junk''])"
    by (simp add: validTuple_def apple_orange_def)
  have h: "\<not> validHandshake stub (element (JArray [JNumber 0, JString ''junk'']) 1)"
    by (simp add: validHandshake_def element_def)
  have e: "element (JArray [JNumber 0, JString ''junk'']) 0 = JNumber 0"
    by (simp add: element_def)
  from invalid_handshake_body [OF module_exports_apple_orange stub_parse_frames(5) t e h, of bob]
  have "parserStream stub apple_orange bob frame_junk
          = (None, emit bob ''invalid'' [element (JArray [JNumber 0, JString ''junk'']) 1])"
    by blast
  then have "parserStream stub apple_orange bob frame_junk
       = (None, bob \<lparr> emitted := [(''invalid'', [JString ''junk''])] \<rparr>)"
    by (simp add: emit_def element_def bob_def)
  then show ?thesis using t h by (simp add: element_def)
qed

section \<open>Sending\<close>

lemma module_exports_shadow: "module_exports shadow_options = Inr shadow"
  by (simp add: module_exports_def shadow_options_def shadow_def shadow_type_def
      Object_keys_def isSafeInteger_def Let_def)

lemma hex_nonce_anna: "toString_hex nonce_anna = hex_anna"
  by code_simp

lemma Protocol_bob: "Protocol stub replicationKey of_nat = Inr bob"
  by (simp add: Protocol_def stub_def replicationKey_def bob_def initializeCipher_def nonce_bob_def
      Let_def)

lemma Protocol_anna: "Protocol stub replicationKey (\<lambda>_. 9) = Inr anna_new"
  by (simp add: Protocol_def stub_def replicationKey_def anna_new_def initializeCipher_def
      nonce_anna_def Let_def map_replicate_const)

lemma pipe_clear:
  "\<not> sentNonce self \<Longrightarrow> pipe L self chunks = Inr (self \<lparr> pushed := pushed self @ chunks \<rparr>)"
  by (induction chunks arbitrary: self) (simp_all add: readableStream_def)

lemma Protocol_encode_written:
  "\<not> sentNonce self \<Longrightarrow> \<not> encoderEnded self \<Longrightarrow>
     Protocol_encode L self p body None callback
       = (Callback_waits,
          self \<lparr> pushed := pushed self
                   @ lengthPrefixedStream_encode L (JSON_stringify L (JArray [JNumber (of_nat p), body])),
                 waiting := waiting self @ [callback None] \<rparr>)"
  by (simp add: Protocol_encode_def encoderStream_write_def pipe_clear)

lemma Protocol_encode_failure:
  "\<not> encoderEnded self \<Longrightarrow>
     Protocol_encode L self p body (Some e) callback
       = (Callback_waits, self \<lparr> waiting := waiting self @ [callback (Some e)] \<rparr>)"
  by (simp add: Protocol_encode_def encoderStream_write_def)

lemma Protocol_encode_ended:
  "encoderEnded self \<Longrightarrow>
     Protocol_encode L self p body failure callback = (Throws (Error ''write after end''), self)"
  by (simp add: Protocol_encode_def encoderStream_write_def)

lemma Protocol_handshake_refused:
  "sentNonce self \<Longrightarrow>
     Protocol_handshake L P self failure = (Calls_back (Some (Error ''already sent handshake'')), self)"
  by (simp add: Protocol_handshake_def)

lemma Protocol_handshake_written:
  "\<not> sentNonce self \<Longrightarrow> \<not> encoderEnded self \<Longrightarrow>
     Protocol_handshake L P self None
       = (Callback_waits,
          self \<lparr> pushed := pushed self
                   @ lengthPrefixedStream_encode L
                       (JSON_stringify L
                          (JArray [JNumber 0,
                                   JObject [(''version'', JNumber (version P)),
                                            (''nonce'', JString (toString_hex (sendingNonce self)))]])),
                 waiting := waiting self @ [Handshake_written None] \<rparr>)"
  by (simp add: Protocol_handshake_def Protocol_encode_written HANDSHAKE_PREFIX_def)

lemma Protocol_handshake_failure:
  "\<not> sentNonce self \<Longrightarrow> \<not> encoderEnded self \<Longrightarrow>
     Protocol_handshake L P self (Some e)
       = (Callback_waits, self \<lparr> waiting := waiting self @ [Handshake_written (Some e)] \<rparr>)"
  by (simp add: Protocol_handshake_def Protocol_encode_failure)

lemma run_callback_handshake:
  "waiting self = Handshake_written None # rest \<Longrightarrow>
     run_callback self = (Calls_back None, self \<lparr> waiting := rest, sentNonce := True \<rparr>)"
  "waiting self = Handshake_written (Some e) # rest \<Longrightarrow>
     run_callback self = (Calls_back (Some e), self \<lparr> waiting := rest \<rparr>)"
  by (simp_all add: run_callback_def)

lemma run_callback_other:
  "waiting self = Message_written failure # rest \<Longrightarrow>
     run_callback self = (Calls_back failure, self \<lparr> waiting := rest \<rparr>)"
  "waiting self = Encoder_finished # rest \<Longrightarrow>
     run_callback self = (Calls_back None, self \<lparr> waiting := rest \<rparr>)"
  by (simp_all add: run_callback_def)

text \<open>Once the callback of a handshake has run without an error, another call is refused.\<close>

lemma handshake_after_callback:
  assumes "\<not> sentNonce self" "\<not> encoderEnded self" "waiting self = []"
  shows "Protocol_handshake L P
           (snd (run_callback (snd (Protocol_handshake L P self None)))) failure
         = (Calls_back (Some (Error ''already sent handshake'')),
            snd (run_callback (snd (Protocol_handshake L P self None))))"
proof -
  have "sentNonce (snd (run_callback (snd (Protocol_handshake L P self None))))"
    using assms by (simp add: Protocol_handshake_written run_callback_def)
  then show ?thesis by (rule Protocol_handshake_refused)
qed

lemma bob_frame:
  "lengthPrefixedStream_encode stub
     (JSON_stringify stub
        (JArray [JNumber 0,
                 JObject [(''version'', JNumber (version apple_orange)),
                          (''nonce'', JString (toString_hex (sendingNonce bob)))]]))
   = [[of_nat (length frame_bob)], frame_bob]"
proof -
  have "JArray [JNumber 0, JObject [(''version'', JNumber (version apple_orange)),
                                    (''nonce'', JString (toString_hex (sendingNonce bob)))]]
        = JArray [JNumber 0, handshake_bob]"
    by (simp add: handshake_bob_def apple_orange_def bob_def hex_nonce_bob)
  then show ?thesis by (simp add: stub_def stub_stringify_def)
qed

lemma Protocol_sendMessage_valid:
  "messageTypesByName P ''hasOwnProperty'' = None \<Longrightarrow> typeName \<noteq> ''__proto__'' \<Longrightarrow>
   messageTypesByName P typeName = Some ty \<Longrightarrow> valid ty data = None \<Longrightarrow> verify ty data \<Longrightarrow>
     Protocol_sendMessage L P self typeName data failure
       = Protocol_encode L self (prefix ty) data failure Message_written"
  by (simp add: Protocol_sendMessage_def)

lemma Protocol_sendMessage_invalid:
  "messageTypesByName P ''hasOwnProperty'' = None \<Longrightarrow> typeName \<noteq> ''__proto__'' \<Longrightarrow>
   messageTypesByName P typeName = Some ty \<Longrightarrow> valid ty data \<noteq> None \<or> \<not> verify ty data \<Longrightarrow>
     Protocol_sendMessage L P self typeName data failure
       = (Throws (Invalid (''invalid '' @ typeName) (valid ty data)), self)"
  by (auto simp add: Protocol_sendMessage_def)

lemma length_update: "length (snd (update L c chunk)) = length chunk"
  by (simp add: update_def)

lemma update_append:
  "snd (update L c (a @ b)) = snd (update L c a) @ snd (update L (fst (update L c a)) b)"
  "fst (update L c (a @ b)) = fst (update L (fst (update L c a)) b)"
proof -
  show "snd (update L c (a @ b)) = snd (update L c a) @ snd (update L (fst (update L c a)) b)"
    by (rule nth_equalityI) (auto simp: update_def nth_append add.assoc)
  show "fst (update L c (a @ b)) = fst (update L (fst (update L c a)) b)"
    by (simp add: update_def add.assoc)
qed

lemma update_Nil: "fst (update L c []) = c" "snd (update L c []) = []"
  by (simp_all add: update_def)

lemma pipe_encrypted:
  "sentNonce self \<Longrightarrow> sendingCipher self = Some c \<Longrightarrow>
     \<exists>new. pipe L self chunks
            = Inr (self \<lparr> sendingCipher := Some (fst (update L c (concat chunks))),
                          pushed := pushed self @ new \<rparr>)
          \<and> concat new = snd (update L c (concat chunks))
          \<and> map length new = map length chunks"
proof (induction chunks arbitrary: self c)
  case Nil
  have "self = self \<lparr> sendingCipher := Some c, pushed := pushed self @ [] \<rparr>"
    using Nil by simp
  then show ?case by (simp add: update_Nil)
next
  case (Cons chunk chunks)
  let ?s1 = "self \<lparr> sendingCipher := Some (fst (update L c chunk)),
                    pushed := pushed self @ [snd (update L c chunk)] \<rparr>"
  have r: "readableStream L self chunk = Inr ?s1"
    using Cons.prems by (simp add: readableStream_def)
  have "sentNonce ?s1" "sendingCipher ?s1 = Some (fst (update L c chunk))"
    using Cons.prems by simp_all
  from Cons.IH [OF this] obtain new where
    n: "pipe L ?s1 chunks
            = Inr (?s1 \<lparr> sendingCipher := Some (fst (update L (fst (update L c chunk)) (concat chunks))),
                          pushed := pushed ?s1 @ new \<rparr>)"
       "concat new = snd (update L (fst (update L c chunk)) (concat chunks))"
       "map length new = map length chunks"
    by blast
  have "pipe L self (chunk # chunks)
            = Inr (self \<lparr> sendingCipher := Some (fst (update L c (concat (chunk # chunks)))),
                          pushed := pushed self @ (snd (update L c chunk) # new) \<rparr>)"
    using r n(1) by (simp add: update_append(2))
  moreover have "concat (snd (update L c chunk) # new) = snd (update L c (concat (chunk # chunks)))"
    using n(2) by (simp add: update_append(1))
  moreover have "map length (snd (update L c chunk) # new) = map length (chunk # chunks)"
    using n(3) by (simp add: length_update)
  ultimately show ?case by blast
qed

lemma Protocol_encode_encrypted:
  assumes "sentNonce self" "\<not> encoderEnded self" "sendingCipher self = Some c"
    and "chunks = lengthPrefixedStream_encode L (JSON_stringify L (JArray [JNumber (of_nat p), body]))"
  shows "\<exists>new. Protocol_encode L self p body None callback
            = (Callback_waits,
               self \<lparr> sendingCipher := Some (fst (update L c (concat chunks))),
                      pushed := pushed self @ new,
                      waiting := waiting self @ [callback None] \<rparr>)
          \<and> concat new = snd (update L c (concat chunks))
          \<and> map length new = map length chunks"
proof -
  from pipe_encrypted [OF assms(1,3), of L chunks] obtain new where
    n: "pipe L self chunks
            = Inr (self \<lparr> sendingCipher := Some (fst (update L c (concat chunks))),
                          pushed := pushed self @ new \<rparr>)"
       "concat new = snd (update L c (concat chunks))" "map length new = map length chunks"
    by blast
  have "Protocol_encode L self p body None callback
            = (Callback_waits,
               self \<lparr> sendingCipher := Some (fst (update L c (concat chunks))),
                      pushed := pushed self @ new,
                      waiting := waiting self @ [callback None] \<rparr>)"
    using assms(2) n(1) by (simp add: Protocol_encode_def encoderStream_write_def assms(4) [symmetric])
  with n(2,3) show ?thesis by blast
qed

text \<open>
  Claim C2 says that an outbound frame is encrypted if and only if the handshake frame
  has already been sent. The code does not do that for a frame written behind the
  handshake frame before the write callback of \<open>handshake\<close> has run: \<open>_sentNonce\<close> is
  set in that callback, on a later tick, so on an instance that has sent nothing, a
  valid message sent right after \<open>handshake\<close> is pushed as it is, after the handshake
  frame, and the outbound cipher is not used.
\<close>

theorem frame_behind_handshake:
  assumes "\<not> sentNonce self" and "\<not> encoderEnded self"
    and "messageTypesByName P ''hasOwnProperty'' = None" and "typeName \<noteq> ''__proto__''"
    and "messageTypesByName P typeName = Some ty" and "valid ty data = None" and "verify ty data"
    and "frame = lengthPrefixedStream_encode L
                   (JSON_stringify L
                      (JArray [JNumber 0,
                               JObject [(''version'', JNumber (version P)),
                                        (''nonce'', JString (toString_hex (sendingNonce self)))]]))"
  shows "Protocol_handshake L P self None
           = (Callback_waits,
              self \<lparr> pushed := pushed self @ frame,
                     waiting := waiting self @ [Handshake_written None] \<rparr>)
       \<and> Protocol_sendMessage L P
            (self \<lparr> pushed := pushed self @ frame,
                    waiting := waiting self @ [Handshake_written None] \<rparr>) typeName data None
           = (Callback_waits,
              self \<lparr> pushed := pushed self @ frame
                        @ lengthPrefixedStream_encode L
                            (JSON_stringify L (JArray [JNumber (of_nat (prefix ty)), data])),
                     waiting := waiting self @ [Handshake_written None, Message_written None] \<rparr>)"
proof (intro conjI)
  show "Protocol_handshake L P self None
           = (Callback_waits,
              self \<lparr> pushed := pushed self @ frame,
                     waiting := waiting self @ [Handshake_written None] \<rparr>)"
    using assms(1,2,8) by (simp add: Protocol_handshake_written)
  let ?s1 = "self \<lparr> pushed := pushed self @ frame,
                    waiting := waiting self @ [Handshake_written None] \<rparr>"
  have "Protocol_sendMessage L P ?s1 typeName data None
          = Protocol_encode L ?s1 (prefix ty) data None Message_written"
    using assms(3-7) by (rule Protocol_sendMessage_valid)
  also have "\<dots> = (Callback_waits,
              self \<lparr> pushed := pushed self @ frame
                        @ lengthPrefixedStream_encode L
                            (JSON_stringify L (JArray [JNumber (of_nat (prefix ty)), data])),
                     waiting := waiting self @ [Handshake_written None, Message_written None] \<rparr>)"
    using assms(1,2) by (simp add: Protocol_encode_written)
  finally show "Protocol_sendMessage L P ?s1 typeName data None
           = (Callback_waits,
              self \<lparr> pushed := pushed self @ frame
                        @ lengthPrefixedStream_encode L
                            (JSON_stringify L (JArray [JNumber (of_nat (prefix ty)), data])),
                     waiting := waiting self @ [Handshake_written None, Message_written None] \<rparr>)" .
qed


text \<open>Bob calls \<open>handshake\<close> and then sends an apple: both frames leave as they are.\<close>

theorem frame_behind_handshake_witness:
  "\<not> sentNonce bob \<and> \<not> encoderEnded bob
   \<and> messageTypesByName apple_orange ''apple'' = Some apple_type
   \<and> valid apple_type (JString ''apple'') = None
   \<and> Protocol_handshake stub apple_orange bob None
       = (Callback_waits,
          bob \<lparr> pushed := [[of_nat (length frame_bob)], frame_bob],
                waiting := [Handshake_written None] \<rparr>)
   \<and> Protocol_sendMessage stub apple_orange
        (bob \<lparr> pushed := [[of_nat (length frame_bob)], frame_bob],
               waiting := [Handshake_written None] \<rparr>) ''apple'' (JString ''apple'') None
       = (Callback_waits,
          bob \<lparr> pushed := [[of_nat (length frame_bob)], frame_bob,
                           [of_nat (length frame_apple)], frame_apple],
                waiting := [Handshake_written None, Message_written None] \<rparr>)"
proof -
  have b: "\<not> sentNonce bob" "\<not> encoderEnded bob" "waiting bob = []" "pushed bob = []"
    by (simp_all add: bob_def)
  have h: "messageTypesByName apple_orange ''hasOwnProperty'' = None"
    by (simp add: apple_orange_def)
  have n: "''apple'' \<noteq> ''__proto__''" by simp
  have t: "messageTypesByName apple_orange ''apple'' = Some apple_type"
    by (simp add: apple_orange_def)
  have v: "valid apple_type (JString ''apple'') = None" "verify apple_type (JString ''apple'')"
    by (simp_all add: apple_type_def const_schema_def)
  have a: "lengthPrefixedStream_encode stub
             (JSON_stringify stub (JArray [JNumber (of_nat (prefix apple_type)), JString ''apple'']))
           = [[of_nat (length frame_apple)], frame_apple]"
    by (simp add: stub_def stub_stringify_def apple_type_def handshake_bob_def handshake_anna_def)
  note T = frame_behind_handshake [OF b(1) b(2) h n t v bob_frame [symmetric]]
  have 1: "Protocol_handshake stub apple_orange bob None
       = (Callback_waits,
          bob \<lparr> pushed := [[of_nat (length frame_bob)], frame_bob],
                waiting := [Handshake_written None] \<rparr>)"
    using T [THEN conjunct1] by (simp only: b(3,4) append_Nil)
  have 2: "Protocol_sendMessage stub apple_orange
        (bob \<lparr> pushed := [[of_nat (length frame_bob)], frame_bob],
               waiting := [Handshake_written None] \<rparr>) ''apple'' (JString ''apple'') None
       = (Callback_waits,
          bob \<lparr> pushed := [[of_nat (length frame_bob)], frame_bob,
                           [of_nat (length frame_apple)], frame_apple],
                waiting := [Handshake_written None, Message_written None] \<rparr>)"
    using T [THEN conjunct2] by (simp only: a b(3,4) append_Nil append_Cons)
  show ?thesis using b(1,2) t v(1) 1 2 by (intro conjI)
qed


text \<open>
  Claim C4 says that a second \<open>handshake\<close> after a successful first one fails and writes
  nothing. The code does not do that for a second call made before the write callback
  of the first has run: the guard reads \<open>_sentNonce\<close>, which that callback sets on a later
  tick. On an instance that has sent nothing, the first call writes the handshake frame
  and leaves the flag unset; a second call then writes the frame again; both callbacks
  are called without an error, the first of them setting the flag.
\<close>

theorem handshake_before_callback:
  assumes "\<not> sentNonce self" and "\<not> encoderEnded self" and "waiting self = []"
    and "frame = lengthPrefixedStream_encode L
                   (JSON_stringify L
                      (JArray [JNumber 0,
                               JObject [(''version'', JNumber (version P)),
                                        (''nonce'', JString (toString_hex (sendingNonce self)))]]))"
  shows "Protocol_handshake L P self None
           = (Callback_waits,
              self \<lparr> pushed := pushed self @ frame, waiting := [Handshake_written None] \<rparr>)
       \<and> Protocol_handshake L P
            (self \<lparr> pushed := pushed self @ frame, waiting := [Handshake_written None] \<rparr>) None
           = (Callback_waits,
              self \<lparr> pushed := pushed self @ frame @ frame,
                     waiting := [Handshake_written None, Handshake_written None] \<rparr>)
       \<and> run_callback
            (self \<lparr> pushed := pushed self @ frame @ frame,
                    waiting := [Handshake_written None, Handshake_written None] \<rparr>)
           = (Calls_back None,
              self \<lparr> pushed := pushed self @ frame @ frame,
                     waiting := [Handshake_written None], sentNonce := True \<rparr>)
       \<and> run_callback
            (self \<lparr> pushed := pushed self @ frame @ frame,
                    waiting := [Handshake_written None], sentNonce := True \<rparr>)
           = (Calls_back None,
              self \<lparr> pushed := pushed self @ frame @ frame, waiting := [], sentNonce := True \<rparr>)"
proof (intro conjI)
  show "Protocol_handshake L P self None
           = (Callback_waits,
              self \<lparr> pushed := pushed self @ frame, waiting := [Handshake_written None] \<rparr>)"
    using assms by (simp add: Protocol_handshake_written)
  show "Protocol_handshake L P
            (self \<lparr> pushed := pushed self @ frame, waiting := [Handshake_written None] \<rparr>) None
           = (Callback_waits,
              self \<lparr> pushed := pushed self @ frame @ frame,
                     waiting := [Handshake_written None, Handshake_written None] \<rparr>)"
    using assms by (simp add: Protocol_handshake_written)
  show "run_callback
            (self \<lparr> pushed := pushed self @ frame @ frame,
                    waiting := [Handshake_written None, Handshake_written None] \<rparr>)
           = (Calls_back None,
              self \<lparr> pushed := pushed self @ frame @ frame,
                     waiting := [Handshake_written None], sentNonce := True \<rparr>)"
    by (simp add: run_callback_def)
  show "run_callback
            (self \<lparr> pushed := pushed self @ frame @ frame,
                    waiting := [Handshake_written None], sentNonce := True \<rparr>)
           = (Calls_back None,
              self \<lparr> pushed := pushed self @ frame @ frame, waiting := [], sentNonce := True \<rparr>)"
    by (simp add: run_callback_def)
qed


text \<open>Bob calls \<open>handshake\<close> twice in a row: two handshake frames are pushed.\<close>

theorem handshake_before_callback_witness:
  "\<not> sentNonce bob \<and> \<not> encoderEnded bob \<and> waiting bob = []
   \<and> Protocol_handshake stub apple_orange bob None
       = (Callback_waits,
          bob \<lparr> pushed := [[of_nat (length frame_bob)], frame_bob],
                waiting := [Handshake_written None] \<rparr>)
   \<and> Protocol_handshake stub apple_orange
        (bob \<lparr> pushed := [[of_nat (length frame_bob)], frame_bob],
               waiting := [Handshake_written None] \<rparr>) None
       = (Callback_waits,
          bob \<lparr> pushed := [[of_nat (length frame_bob)], frame_bob,
                           [of_nat (length frame_bob)], frame_bob],
                waiting := [Handshake_written None, Handshake_written None] \<rparr>)"
proof -
  have b: "\<not> sentNonce bob" "\<not> encoderEnded bob" "waiting bob = []" "pushed bob = []"
    by (simp_all add: bob_def)
  note T = handshake_before_callback [OF b(1) b(2) b(3) bob_frame [symmetric]]
  note T1 = T [THEN conjunct1]
  note T2 = T [THEN conjunct2, THEN conjunct1]
  have 1: "Protocol_handshake stub apple_orange bob None
       = (Callback_waits,
          bob \<lparr> pushed := [[of_nat (length frame_bob)], frame_bob],
                waiting := [Handshake_written None] \<rparr>)"
    using T1 by (simp only: b(4) append_Nil)
  have 2: "Protocol_handshake stub apple_orange
        (bob \<lparr> pushed := [[of_nat (length frame_bob)], frame_bob],
               waiting := [Handshake_written None] \<rparr>) None
       = (Callback_waits,
          bob \<lparr> pushed := [[of_nat (length frame_bob)], frame_bob,
                           [of_nat (length frame_bob)], frame_bob],
                waiting := [Handshake_written None, Handshake_written None] \<rparr>)"
    using T2 by (simp only: b(4) append_Nil append_Cons)
  show ?thesis using b(1,2,3) 1 2 by (intro conjI)
qed

text \<open>
  Claim C5 says that a sender throws \<open>invalid\<close> followed by the name for a payload its
  type rejects. The code does not do that when the options declare a message type named
  \<open>hasOwnProperty\<close>: the guard of \<open>_sendMessage\<close> then calls the type instead of the
  method, and every sender throws a \<open>TypeError\<close> for every payload, before validating
  anything; the instance is as before.
\<close>

theorem sender_hasOwnProperty:
  assumes "module_exports opts = Inr P"
    and "map_of (messages opts) ''hasOwnProperty'' = Some declared"
  shows "Protocol_sendMessage L P self typeName data failure
           = (Throws (TypeError ''messageTypesByName.hasOwnProperty is not a function''), self)"
proof -
  from module_exports_declared [OF assms]
  have "messageTypesByName P ''hasOwnProperty'' \<noteq> None" by auto
  then show ?thesis by (simp add: Protocol_sendMessage_def)
qed


text \<open>A pear sent as the type \<open>hasOwnProperty\<close>, whose schema wants an apple.\<close>

theorem sender_hasOwnProperty_witness:
  "module_exports shadow_options = Inr shadow
   \<and> messageTypesByName shadow ''hasOwnProperty'' = Some shadow_type
   \<and> valid shadow_type (JString ''pear'') = Some [''const'']
   \<and> Protocol_sendMessage stub shadow anna ''hasOwnProperty'' (JString ''pear'') None
       = (Throws (TypeError ''messageTypesByName.hasOwnProperty is not a function''), anna)"
proof -
  have m: "map_of (messages shadow_options) ''hasOwnProperty''
             = Some \<lparr> schema = Some (const_schema ''apple''), verify_opt = NoVerify \<rparr>"
    by (simp add: shadow_options_def)
  have t: "messageTypesByName shadow ''hasOwnProperty'' = Some shadow_type"
    by (simp add: shadow_def)
  have v: "valid shadow_type (JString ''pear'') = Some [''const'']"
    by (simp add: shadow_type_def const_schema_def)
  from sender_hasOwnProperty [OF module_exports_shadow m, of stub anna "''hasOwnProperty''" "JString ''pear''" None]
  show ?thesis using module_exports_shadow t v by (intro conjI)
qed

section \<open>Finalizing\<close>

lemma no_teardown_refl: "no_teardown self self"
  by (simp add: no_teardown_def)

lemma no_teardown_trans: "no_teardown a b \<Longrightarrow> no_teardown b c \<Longrightarrow> no_teardown a c"
  by (simp add: no_teardown_def)

lemma readableStream_no_teardown:
  "readableStream L self chunk = Inr s \<Longrightarrow> no_teardown self s"
  by (auto simp: readableStream_def no_teardown_def split: if_splits option.splits)

lemma pipe_no_teardown:
  "pipe L self chunks = Inr s \<Longrightarrow> no_teardown self s"
proof (induction chunks arbitrary: self)
  case Nil
  then show ?case by (simp add: no_teardown_refl)
next
  case (Cons chunk chunks)
  from Cons.prems obtain s1 where s1: "readableStream L self chunk = Inr s1" "pipe L s1 chunks = Inr s"
    by (auto split: sum.splits)
  from readableStream_no_teardown [OF s1(1)] Cons.IH [OF s1(2)] show ?case
    by (rule no_teardown_trans)
qed

lemma encoderStream_write_no_teardown:
  "no_teardown self (snd (encoderStream_write L self buffer failure callback))"
proof (cases "pipe L self (lengthPrefixedStream_encode L buffer)")
  case (Inl e)
  then show ?thesis
    by (simp add: encoderStream_write_def no_teardown_def split: option.splits)
next
  case (Inr s)
  from pipe_no_teardown [OF Inr] show ?thesis using Inr
    by (simp add: encoderStream_write_def no_teardown_def split: option.splits)
qed

lemma Protocol_encode_no_teardown:
  "no_teardown self (snd (Protocol_encode L self p body failure callback))"
  by (simp add: Protocol_encode_def encoderStream_write_no_teardown)

lemma Protocol_handshake_no_teardown:
  "no_teardown self (snd (Protocol_handshake L P self failure))"
  by (simp add: Protocol_handshake_def Protocol_encode_no_teardown no_teardown_refl)

lemma Protocol_sendMessage_no_teardown:
  "no_teardown self (snd (Protocol_sendMessage L P self typeName data failure))"
  by (simp add: Protocol_sendMessage_def Protocol_encode_no_teardown no_teardown_refl
      split: option.splits)

lemma run_callback_no_teardown: "no_teardown self (snd (run_callback self))"
  by (simp add: run_callback_def no_teardown_def split: list.splits waiting.splits option.splits)

lemma writableStream_no_teardown: "no_teardown self (fst (writableStream L self chunk))"
  by (simp add: writableStream_def no_teardown_def split: option.splits)

lemma Protocol_parse_no_teardown: "no_teardown self (snd (Protocol_parse L P self message))"
  by (simp add: Protocol_parse_def Let_def emit_def no_teardown_def
      split: option.splits jsvalue.splits sum.splits)

lemma parserStream_no_teardown: "no_teardown self (snd (parserStream L P self message))"
proof -
  obtain r s where p: "Protocol_parse L P self message = (r, s)"
    by (cases "Protocol_parse L P self message")
  with Protocol_parse_no_teardown [of self L P message] have "no_teardown self s" by simp
  then show ?thesis using p
    by (simp add: parserStream_def destroy_def no_teardown_def split: outcome.splits option.splits)
qed

lemma Protocol_finalize_Not_defined:
  "Protocol_finalize L self Not_defined = (Throws (TypeError ''self._finalize is not a function''), self)"
  by (simp add: Protocol_finalize_def)

lemma perform_no_teardown: "as_it_is c \<Longrightarrow> no_teardown self (perform L P self c)"
  by (cases c)
    (simp_all add: Protocol_handshake_no_teardown Protocol_sendMessage_no_teardown
      run_callback_no_teardown writableStream_no_teardown parserStream_no_teardown
      Protocol_finalize_Not_defined no_teardown_refl)

lemma foldl_perform_no_teardown:
  "list_all as_it_is calls \<Longrightarrow> no_teardown self (foldl (perform L P) self calls)"
proof (induction calls arbitrary: self)
  case Nil
  then show ?case by (simp add: no_teardown_refl)
next
  case (Cons c calls)
  then have "no_teardown self (perform L P self c)"
    and "no_teardown (perform L P self c) (foldl (perform L P) (perform L P self c) calls)"
    by (simp_all add: perform_no_teardown)
  then show ?case by (simp add: no_teardown_trans)
qed

text \<open>With a \<open>_finalize\<close> from outside that reports no error, and both ciphers there.\<close>

lemma Protocol_finalize_both:
  "\<not> encoderEnded self \<Longrightarrow> sendingCipher self \<noteq> None \<Longrightarrow> receivingCipher self \<noteq> None \<Longrightarrow>
     Protocol_finalize L self (Reports None)
       = (Callback_waits,
          self \<lparr> encoderEnded := True, waiting := waiting self @ [Encoder_finished],
                 finalized := finalized self @ [Sending, Receiving],
                 sendingCipher := None, receivingCipher := None \<rparr>)"
  by (auto simp add: Protocol_finalize_def Let_def)

lemma Protocol_finalize_no_inbound:
  "\<not> encoderEnded self \<Longrightarrow> sendingCipher self \<noteq> None \<Longrightarrow> receivingCipher self = None \<Longrightarrow>
     Protocol_finalize L self (Reports None)
       = (Throws (TypeError ''Cannot read properties of null (reading final)''),
          self \<lparr> encoderEnded := True, waiting := waiting self @ [Encoder_finished],
                 finalized := finalized self @ [Sending], sendingCipher := None \<rparr>)"
  by (auto simp add: Protocol_finalize_def Let_def)

text \<open>
  Claim C8 says that \<open>finalize\<close> tears down both ciphers once after a successful drain,
  and that it is an error, not a silent completion, to finalize without an inbound
  cipher. The code does not do that: as the module is, \<open>finalize\<close> throws at the call of
  \<open>_finalize\<close>, which nothing defines, and changes nothing, so that over any sequence of
  calls no \<open>final()\<close> is ever called, the encoder stream is never ended and the outbound
  cipher is never dropped. With a \<open>_finalize\<close> added from outside that reports no error,
  \<open>finalize\<close> without an inbound cipher throws a \<open>TypeError\<close> after it has ended the
  encoder stream and torn down the outbound cipher, and the callback it gave to \<open>end\<close>
  is still called without an error.
\<close>

theorem finalize_as_it_is:
  "Protocol_finalize L self Not_defined
     = (Throws (TypeError ''self._finalize is not a function''), self)
   \<and> (list_all as_it_is calls \<longrightarrow> no_teardown self (foldl (perform L P) self calls))
   \<and> (\<not> encoderEnded self \<and> sendingCipher self \<noteq> None \<and> receivingCipher self = None \<longrightarrow>
        Protocol_finalize L self (Reports None)
          = (Throws (TypeError ''Cannot read properties of null (reading final)''),
             self \<lparr> encoderEnded := True, waiting := waiting self @ [Encoder_finished],
                    finalized := finalized self @ [Sending], sendingCipher := None \<rparr>))
   \<and> (waiting self = Encoder_finished # rest \<longrightarrow>
        run_callback self = (Calls_back None, self \<lparr> waiting := rest \<rparr>))"
proof (intro conjI impI)
  show "Protocol_finalize L self Not_defined
     = (Throws (TypeError ''self._finalize is not a function''), self)"
    by (rule Protocol_finalize_Not_defined)
next
  assume "list_all as_it_is calls"
  then show "no_teardown self (foldl (perform L P) self calls)"
    by (rule foldl_perform_no_teardown)
next
  assume "\<not> encoderEnded self \<and> sendingCipher self \<noteq> None \<and> receivingCipher self = None"
  then show "Protocol_finalize L self (Reports None)
          = (Throws (TypeError ''Cannot read properties of null (reading final)''),
             self \<lparr> encoderEnded := True, waiting := waiting self @ [Encoder_finished],
                    finalized := finalized self @ [Sending], sendingCipher := None \<rparr>)"
    by (simp add: Protocol_finalize_no_inbound)
next
  assume "waiting self = Encoder_finished # rest"
  then show "run_callback self = (Calls_back None, self \<lparr> waiting := rest \<rparr>)"
    by (rule run_callback_other(2))
qed


text \<open>
  Anna, who has both ciphers, cannot finalize as the module is. Bob, who has no inbound
  cipher, finalizes with a \<open>_finalize\<close> from outside: the call throws, and the callback
  is called without an error.
\<close>

theorem finalize_as_it_is_witness:
  "sendingCipher anna \<noteq> None \<and> receivingCipher anna \<noteq> None
   \<and> Protocol_finalize stub anna Not_defined
       = (Throws (TypeError ''self._finalize is not a function''), anna)
   \<and> finalized (foldl (perform stub apple_orange) anna
                  [Call_finalize Not_defined, Run_callback, Call_finalize Not_defined]) = []
   \<and> Protocol_finalize stub bob (Reports None)
       = (Throws (TypeError ''Cannot read properties of null (reading final)''),
          bob \<lparr> encoderEnded := True, waiting := [Encoder_finished],
                finalized := [Sending], sendingCipher := None \<rparr>)
   \<and> run_callback (bob \<lparr> encoderEnded := True, waiting := [Encoder_finished],
                         finalized := [Sending], sendingCipher := None \<rparr>)
       = (Calls_back None,
          bob \<lparr> encoderEnded := True, waiting := [],
                finalized := [Sending], sendingCipher := None \<rparr>)"
proof -
  let ?calls = "[Call_finalize Not_defined, Run_callback, Call_finalize Not_defined]"
  let ?b = "bob \<lparr> encoderEnded := True, waiting := [Encoder_finished],
                 finalized := [Sending], sendingCipher := None \<rparr>"
  have a: "sendingCipher anna \<noteq> None" "receivingCipher anna \<noteq> None" "finalized anna = []"
    by (simp_all add: anna_def)
  have b: "\<not> encoderEnded bob \<and> sendingCipher bob \<noteq> None \<and> receivingCipher bob = None"
    "waiting bob = []" "finalized bob = []"
    by (simp_all add: bob_def)
  note A = finalize_as_it_is [of stub anna ?calls apple_orange "[]"]
  note B = finalize_as_it_is [of stub bob "[]" apple_orange "[]"]
  note C = finalize_as_it_is [of stub ?b "[]" apple_orange "[]"]
  have 1: "Protocol_finalize stub anna Not_defined
       = (Throws (TypeError ''self._finalize is not a function''), anna)"
    using A [THEN conjunct1] .
  have "no_teardown anna (foldl (perform stub apple_orange) anna ?calls)"
    using A [THEN conjunct2, THEN conjunct1] by simp
  then have 2: "finalized (foldl (perform stub apple_orange) anna ?calls) = []"
    by (simp only: no_teardown_def a(3))
  have "Protocol_finalize stub bob (Reports None)
          = (Throws (TypeError ''Cannot read properties of null (reading final)''),
             bob \<lparr> encoderEnded := True, waiting := waiting bob @ [Encoder_finished],
                    finalized := finalized bob @ [Sending], sendingCipher := None \<rparr>)"
    using B [THEN conjunct2, THEN conjunct2, THEN conjunct1] b(1) by blast
  then have 3: "Protocol_finalize stub bob (Reports None)
       = (Throws (TypeError ''Cannot read properties of null (reading final)''), ?b)"
    by (simp only: b(2,3) append_Nil)
  have "waiting ?b = Encoder_finished # []" by simp
  with C [THEN conjunct2, THEN conjunct2, THEN conjunct2]
  have "run_callback ?b = (Calls_back None, ?b \<lparr> waiting := [] \<rparr>)" by blast
  then have 4: "run_callback ?b
       = (Calls_back None,
          bob \<lparr> encoderEnded := True, waiting := [],
                finalized := [Sending], sendingCipher := None \<rparr>)"
    by simp
  show ?thesis using a(1,2) 1 2 3 4 by (intro conjI)
qed

section \<open>Anna\<close>

lemma anna_reached:
  "foldl (perform stub apple_orange) anna_new [Call_handshake None, Run_callback, Parse_frame frame_bob]
     = anna"
proof -
  let ?written = "anna_new \<lparr> pushed := [[of_nat (length frame_anna)], frame_anna],
                            waiting := [Handshake_written None] \<rparr>"
  let ?sent = "anna_new \<lparr> pushed := [[of_nat (length frame_anna)], frame_anna],
                         waiting := [], sentNonce := True \<rparr>"
  have t: "JArray [JNumber 0, JObject [(''version'', JNumber (version apple_orange)),
                                       (''nonce'', JString (toString_hex (sendingNonce anna_new)))]]
           = JArray [JNumber 0, handshake_anna]"
    by (simp add: handshake_anna_def apple_orange_def anna_new_def hex_nonce_anna)
  have n: "\<not> sentNonce anna_new" "\<not> encoderEnded anna_new"
    by (simp_all add: anna_new_def)
  have "Protocol_handshake stub apple_orange anna_new None
        = (Callback_waits,
           anna_new \<lparr> pushed := pushed anna_new
                    @ lengthPrefixedStream_encode stub
                        (JSON_stringify stub
                           (JArray [JNumber 0,
                                    JObject [(''version'', JNumber (version apple_orange)),
                                             (''nonce'', JString (toString_hex (sendingNonce anna_new)))]])),
                  waiting := waiting anna_new @ [Handshake_written None] \<rparr>)"
    using n by (rule Protocol_handshake_written)
  then have 1: "Protocol_handshake stub apple_orange anna_new None = (Callback_waits, ?written)"
    unfolding t
    by (simp add: stub_def stub_stringify_def anna_new_def handshake_anna_def handshake_bob_def
        hex_anna_def hex_bob_def)
  have 2: "run_callback ?written = (Calls_back None, ?sent)"
    by (simp add: run_callback_def)
  have v: "validTuple (messageTypePrefixes apple_orange) (JArray [JNumber 0, handshake_bob])"
    using module_exports_apple_orange by (rule validTuple_handshake)
  let ?pair = "JArray [JNumber 0, handshake_bob]"
  have e0: "element ?pair 0 = JNumber 0" and e1: "element ?pair 1 = handshake_bob"
    by (simp_all add: element_def)
  have vh: "validHandshake stub (element ?pair 1)"
    by (simp only: e1 validHandshake_bob)
  have pv: "property (element ?pair 1) ''version'' = JNumber (version apple_orange)"
    by (simp add: element_def property_def handshake_bob_def apple_orange_def)
  have pn: "property (element ?pair 1) ''nonce'' = JString hex_bob"
    by (simp add: element_def property_def handshake_bob_def)
  have rc: "receivingCipher ?sent = None"
    by (simp add: anna_new_def)
  have kl: "length (key ?sent) = STREAM_KEYBYTES stub"
    by (simp add: anna_new_def stub_def replicationKey_def)
  have "Protocol_parse stub apple_orange ?sent frame_bob
       = (Calls_back None,
          emit (?sent \<lparr> receivingNonce := Some (Buffer_from_hex hex_bob),
                       receivingCipher := Some \<lparr> cipher_nonce = Buffer_from_hex hex_bob,
                                                cipher_key = key ?sent, cipher_position = 0 \<rparr> \<rparr>)
            ''handshake'' [])"
    using stub_parse_frames(1) v e0 vh pv pn rc kl by (rule Protocol_parse_first_handshake)
  then have 3: "parserStream stub apple_orange ?sent frame_bob
       = (None,
          emit (?sent \<lparr> receivingNonce := Some (Buffer_from_hex hex_bob),
                       receivingCipher := Some \<lparr> cipher_nonce = Buffer_from_hex hex_bob,
                                                cipher_key = key ?sent, cipher_position = 0 \<rparr> \<rparr>)
            ''handshake'' [])"
    by (rule parserStream_calls_back(2))
  have "foldl (perform stub apple_orange) anna_new
          [Call_handshake None, Run_callback, Parse_frame frame_bob]
      = snd (parserStream stub apple_orange
               (snd (run_callback (snd (Protocol_handshake stub apple_orange anna_new None))))
               frame_bob)"
    by simp
  also have "\<dots> = emit (?sent \<lparr> receivingNonce := Some (Buffer_from_hex hex_bob),
                       receivingCipher := Some \<lparr> cipher_nonce = Buffer_from_hex hex_bob,
                                                cipher_key = key ?sent, cipher_position = 0 \<rparr> \<rparr>)
            ''handshake'' []"
    by (simp only: 1 2 3 snd_conv)
  also have "\<dots> = anna"
    by (simp add: from_hex_bob emit_def anna_new_def anna_def)
  finally show ?thesis .
qed

text \<open>
  What Anna sends from there is encrypted: the chunks of the frame, together, are the
  frame combined with the key stream of her outbound cipher.
\<close>

lemma anna_sends_encrypted:
  "\<exists>new. Protocol_sendMessage stub apple_orange anna ''apple'' (JString ''apple'') None
            = (Callback_waits,
               anna \<lparr> sendingCipher :=
                        Some (fst (update stub \<lparr> cipher_nonce = nonce_anna, cipher_key = replicationKey,
                                                cipher_position = 0 \<rparr>
                                     ([of_nat (length frame_apple)] @ frame_apple))),
                      pushed := pushed anna @ new,
                      waiting := [Message_written None] \<rparr>)
          \<and> concat new
              = snd (update stub \<lparr> cipher_nonce = nonce_anna, cipher_key = replicationKey,
                                   cipher_position = 0 \<rparr>
                        ([of_nat (length frame_apple)] @ frame_apple))"
proof -
  let ?c = "\<lparr> cipher_nonce = nonce_anna, cipher_key = replicationKey, cipher_position = 0 \<rparr>"
  have a: "sentNonce anna" "\<not> encoderEnded anna" "sendingCipher anna = Some ?c" "waiting anna = []"
    by (simp_all add: anna_def)
  have h: "messageTypesByName apple_orange ''hasOwnProperty'' = None"
    "messageTypesByName apple_orange ''apple'' = Some apple_type"
    by (simp_all add: apple_orange_def)
  have v: "valid apple_type (JString ''apple'') = None" "verify apple_type (JString ''apple'')"
    by (simp_all add: apple_type_def const_schema_def)
  have c: "[[of_nat (length frame_apple)], frame_apple]
           = lengthPrefixedStream_encode stub
               (JSON_stringify stub (JArray [JNumber (of_nat (prefix apple_type)), JString ''apple'']))"
    by (simp add: stub_def stub_stringify_def apple_type_def handshake_bob_def handshake_anna_def)
  have s: "Protocol_sendMessage stub apple_orange anna ''apple'' (JString ''apple'') None
          = Protocol_encode stub anna (prefix apple_type) (JString ''apple'') None Message_written"
    using h(1) _ h(2) v by (rule Protocol_sendMessage_valid) simp
  from Protocol_encode_encrypted [OF a(1,2,3) c, of Message_written]
  show ?thesis unfolding s by (auto simp add: a(4))
qed

end
